theory Spec2Isabelle
  imports Main "HOL-Library.Sublist"
begin

section \<open>Python strings\<close>

text \<open>
  Python's \<^verbatim>\<open>sub in s\<close> on two strings: \<open>sub\<close> occurs in \<open>s\<close> as a contiguous
  substring. The empty string occurs in every string.
\<close>

fun str_in :: "string \<Rightarrow> string \<Rightarrow> bool" where
  "str_in sub [] = (sub = [])"
| "str_in sub (c # s) = (prefix sub (c # s) \<or> str_in sub s)"

text \<open>
  Python's \<^verbatim>\<open>s.replace(old, new)\<close>: every non-overlapping occurrence of \<open>old\<close>,
  found from the left, is replaced; with an empty \<open>old\<close>, \<open>new\<close> is put before every
  character and at the end.
\<close>

fun str_replace :: "string \<Rightarrow> string \<Rightarrow> string \<Rightarrow> string" where
  "str_replace s [] new = new @ concat (map (\<lambda>c. c # new) s)"
| "str_replace [] (a # old) new = []"
| "str_replace (c # s) (a # old) new =
     (if prefix (a # old) (c # s) then new @ str_replace (drop (length old) s) (a # old) new
      else c # str_replace s (a # old) new)"

section \<open>Errors\<close>

text \<open>
  The exceptions the notebook's cells can end with. \<open>RegistryAccessError\<close> stands for
  whatever the registry client raises when a package cannot be browsed.
\<close>

datatype py_error =
    KeyError string
  | TypeError
  | ValueError
  | IndexError
  | OSError
  | RegistryAccessError

section \<open>The registry\<close>

text \<open>
  A metadata value is JSON; the notebook only ever concatenates it with a string, which
  Python allows for a string and refuses (TypeError) for every other JSON value.
\<close>

datatype meta_value = Str string | NonStr

text \<open>
  A package as the notebook sees it: \<^verbatim>\<open>pkg.meta\<close>, a dict, and \<^verbatim>\<open>list(pkg)\<close>, the names
  of its files.
\<close>

record package =
  meta :: "string \<rightharpoonup> meta_value"
  files :: "string list"

text \<open>
  The registry client's calls, as the notebook makes them, are
  \<^verbatim>\<open>Package.browse(name, registry)\<close> and \<^verbatim>\<open>push(name, registry, message)\<close>; the registry
  itself is a store of packages by registry address and package name.
\<close>

datatype registry_call =
    Browse string string
  | Push string string string

type_synonym registry_store = "string \<times> string \<rightharpoonup> package"

section \<open>The notebook's state\<close>

text \<open>
  The three lists cell 4 builds, what the cells have printed, and the world outside the
  notebook: the registry and the calls made to its client so far.
\<close>

record env =
  samples :: "string list"
  fastq1 :: "string list"
  fastq2 :: "string list"
  stdout :: "string list"
  store :: registry_store
  calls :: "registry_call list"

definition print :: "string \<Rightarrow> env \<Rightarrow> env" where
  "print line e = e\<lparr>stdout := stdout e @ [line]\<rparr>"

text \<open>
  \<^verbatim>\<open>quilt3.Package.browse(p, registry)\<close> reads the package \<open>p\<close> of the registry: it
  fails when the registry has no such package (or cannot be reached), and leaves the
  registry as it is. A registry holds packages only under names the client accepts, so a
  name the client refuses is a name without a package here.
\<close>

definition browse :: "string \<Rightarrow> string \<Rightarrow> env \<Rightarrow> (py_error + package) \<times> env" where
  "browse p registry e =
     (let e' = e\<lparr>calls := calls e @ [Browse p registry]\<rparr>
      in case store e (registry, p) of
           None \<Rightarrow> (Inl RegistryAccessError, e')
         | Some pkg \<Rightarrow> (Inr pkg, e'))"

text \<open>\<^verbatim>\<open>pkg.push(name, registry, message)\<close> stores the package under the name.\<close>

definition push :: "package \<Rightarrow> string \<Rightarrow> string \<Rightarrow> string \<Rightarrow> env \<Rightarrow> env" where
  "push pkg name registry message e =
     e\<lparr>store := (store e)((registry, name) \<mapsto> pkg),
       calls := calls e @ [Push name registry message]\<rparr>"

text \<open>
  \<^verbatim>\<open>d[k]\<close> on a dict raises KeyError for a missing key; \<^verbatim>\<open>v + "..."\<close> raises
  TypeError unless \<open>v\<close> is a string.
\<close>

definition getitem :: "(string \<rightharpoonup> meta_value) \<Rightarrow> string \<Rightarrow> py_error + meta_value" where
  "getitem d k = (case d k of None \<Rightarrow> Inl (KeyError k) | Some v \<Rightarrow> Inr v)"

definition str_add :: "meta_value \<Rightarrow> string \<Rightarrow> py_error + string" where
  "str_add v t = (case v of Str s \<Rightarrow> Inr (s @ t) | NonStr \<Rightarrow> Inl TypeError)"

section \<open>Cell 4: the sample-sheet loop\<close>

text \<open>
  The notebook uses \<^verbatim>\<open>packages\<close> and \<^verbatim>\<open>quilt3\<close> without defining them: the listing
  is a parameter here, a list of identifiers in the order in which the loop meets them,
  and the client is the registry of the section above. \<^verbatim>\<open>registry\<close> and \<^verbatim>\<open>batch\<close> are
  the two variables of cell 3, parameters as well.
\<close>

text \<open>
  \<^verbatim>\<open>
  for file in pkg_files:
      print(file)
      if "_1.fastq.gz" in file:
          fastq1 = fastq1 + [registry + "/" + batch + "_" + p.replace("ccle/20190225_PRJNA523380_", "") + "/" + file]
      if "_2.fastq.gz" in file:
          fastq2 = fastq2 + [registry + "/" + batch +  "_" + p.replace("ccle/20190225_PRJNA523380_", "") + "/" + file]
  \<close>
\<close>

fun files_loop :: "string \<Rightarrow> string \<Rightarrow> string \<Rightarrow> string list \<Rightarrow> env \<Rightarrow> env" where
  "files_loop registry batch p [] e = e"
| "files_loop registry batch p (file # pkg_files) e =
     (let e1 = print file e;
          e2 = (if str_in ''_1.fastq.gz'' file
                then e1\<lparr>fastq1 := fastq1 e1 @
                       [registry @ ''/'' @ batch @ ''_'' @
                        str_replace p ''ccle/20190225_PRJNA523380_'' '''' @ ''/'' @ file]\<rparr>
                else e1);
          e3 = (if str_in ''_2.fastq.gz'' file
                then e2\<lparr>fastq2 := fastq2 e2 @
                       [registry @ ''/'' @ batch @ ''_'' @
                        str_replace p ''ccle/20190225_PRJNA523380_'' '''' @ ''/'' @ file]\<rparr>
                else e2)
      in files_loop registry batch p pkg_files e3)"

text \<open>
  \<^verbatim>\<open>
  for p in packages:
      if batch in p:
          print(">>>>> " + p)
          pkg = quilt3.Package.browse(p, registry)
          samples = samples + [pkg.meta["CellLine"] + "__" + p.replace("ccle/20190225_PRJNA523380_", "")]
          pkg_files = list(pkg)
          for file in pkg_files: ...
  \<close>
  An exception ends the loop; the state reached so far is returned with it.
\<close>

fun packages_loop :: "string \<Rightarrow> string \<Rightarrow> string list \<Rightarrow> env \<Rightarrow> py_error option \<times> env" where
  "packages_loop registry batch [] e = (None, e)"
| "packages_loop registry batch (p # packages) e =
     (if str_in batch p then
        (case browse p registry (print (''>>>>> '' @ p) e) of
           (Inl err, e1) \<Rightarrow> (Some err, e1)
         | (Inr pkg, e1) \<Rightarrow>
            (case getitem (meta pkg) ''CellLine'' of
               Inl err \<Rightarrow> (Some err, e1)
             | Inr v \<Rightarrow>
                (case str_add v ''__'' of
                   Inl err \<Rightarrow> (Some err, e1)
                 | Inr s \<Rightarrow>
                    packages_loop registry batch packages
                      (files_loop registry batch p (files pkg)
                         (e1\<lparr>samples := samples e1 @
                               [s @ str_replace p ''ccle/20190225_PRJNA523380_'' '''']\<rparr>)))))
      else packages_loop registry batch packages e)"

definition cell4 :: "string \<Rightarrow> string \<Rightarrow> string list \<Rightarrow> env \<Rightarrow> py_error option \<times> env" where
  "cell4 registry batch packages e =
     packages_loop registry batch packages (e\<lparr>samples := [], fastq1 := [], fastq2 := []\<rparr>)"

section \<open>Cell 5: the data frame\<close>

text \<open>
  A pandas data frame of strings: its number of rows (the length of its index) and its
  columns in order, each a name with one cell per row.
\<close>

record dataframe =
  nrows :: nat
  columns :: "(string \<times> string list) list"

text \<open>
  \<^verbatim>\<open>pd.DataFrame({name: list, ...})\<close>: one column per key, in the dict's order; lists
  of different lengths raise ValueError ("All arrays must be of the same length").
\<close>

definition DataFrame :: "(string \<times> string list) list \<Rightarrow> py_error + dataframe" where
  "DataFrame d =
     (case d of
        [] \<Rightarrow> Inr \<lparr>nrows = 0, columns = []\<rparr>
      | (k, v) # rest \<Rightarrow>
          if list_all (\<lambda>kv. length (snd kv) = length v) rest
          then Inr \<lparr>nrows = length v, columns = d\<rparr>
          else Inl ValueError)"

definition shape1 :: "dataframe \<Rightarrow> nat" where
  "shape1 df = length (columns df)"

text \<open>
  \<^verbatim>\<open>df.insert(loc, column, value)\<close> with a scalar value: the new column holds the value
  in every row. A column name already there raises ValueError, a position beyond the
  last column IndexError.
\<close>

definition insert_column :: "dataframe \<Rightarrow> nat \<Rightarrow> string \<Rightarrow> string \<Rightarrow> py_error + dataframe" where
  "insert_column df loc column v =
     (if column \<in> set (map fst (columns df)) then Inl ValueError
      else if length (columns df) < loc then Inl IndexError
      else Inr (df\<lparr>columns := take loc (columns df) @ [(column, replicate (nrows df) v)] @
                                drop loc (columns df)\<rparr>))"

text \<open>
  \<^verbatim>\<open>
  sample_sheet = pd.DataFrame({"sample": samples, "fastq_1": fastq1, "fastq_2": fastq2})
  sample_sheet.insert(sample_sheet.shape[1], "strandedness", "auto")
  \<close>
\<close>

definition cell5 :: "env \<Rightarrow> py_error + dataframe" where
  "cell5 e =
     (case DataFrame [(''sample'', samples e), (''fastq_1'', fastq1 e), (''fastq_2'', fastq2 e)] of
        Inl err \<Rightarrow> Inl err
      | Inr sample_sheet \<Rightarrow>
          insert_column sample_sheet (shape1 sample_sheet) ''strandedness'' ''auto'')"

text \<open>The rows of a frame: row \<open>i\<close> holds cell \<open>i\<close> of every column, in column order.\<close>

definition rows :: "dataframe \<Rightarrow> string list list" where
  "rows df = map (\<lambda>i. map (\<lambda>kv. snd kv ! i) (columns df)) [0..<nrows df]"

text \<open>
  Cells 4 and 5 run one after the other; cell 5 is not reached when cell 4 raises.
\<close>

definition build_manifest ::
  "string \<Rightarrow> string \<Rightarrow> string list \<Rightarrow> env \<Rightarrow> (py_error + dataframe) \<times> env" where
  "build_manifest registry batch packages e =
     (case cell4 registry batch packages e of
        (Some err, e') \<Rightarrow> (Inl err, e')
      | (None, e') \<Rightarrow> (cell5 e', e'))"

section \<open>Cell 6: the CSV file\<close>

text \<open>\<^verbatim>\<open>sep.join(xs)\<close> and \<^verbatim>\<open>str(n)\<close> for a row number.\<close>

fun str_join :: "string \<Rightarrow> string list \<Rightarrow> string" where
  "str_join sep [] = []"
| "str_join sep [x] = x"
| "str_join sep (x # y # ys) = x @ sep @ str_join sep (y # ys)"

fun str_nat :: "nat \<Rightarrow> string" where
  "str_nat n =
     (if n < 10 then [char_of (48 + n)]
      else str_nat (n div 10) @ [char_of (48 + n mod 10)])"

text \<open>
  The csv writer's minimal quoting: a field holding the delimiter, the quote character or
  a character of the line terminator is put in double quotes, its quote characters
  doubled; a record of one empty field is written as two quote characters.
\<close>

definition csv_field :: "string \<Rightarrow> string \<Rightarrow> string" where
  "csv_field linesep f =
     (if list_ex (\<lambda>c. c = CHR '','' \<or> c = CHR 0x22 \<or> c \<in> set linesep) f
      then [CHR 0x22] @ concat (map (\<lambda>c. if c = CHR 0x22 then [c, c] else [c]) f) @ [CHR 0x22]
      else f)"

definition csv_record :: "string \<Rightarrow> string list \<Rightarrow> string" where
  "csv_record linesep fs =
     (if fs = [[]] then [CHR 0x22, CHR 0x22]
      else str_join '','' (map (csv_field linesep) fs)) @ linesep"

text \<open>
  The text \<^verbatim>\<open>df.to_csv\<close> writes: the header record, then one record per row; with
  \<^verbatim>\<open>index=True\<close> every record starts with the row's index (the header with an empty
  label).
\<close>

definition csv_text :: "dataframe \<Rightarrow> bool \<Rightarrow> string \<Rightarrow> string" where
  "csv_text df index linesep =
     csv_record linesep ((if index then [[]] else []) @ map fst (columns df)) @
     concat (map (\<lambda>i. csv_record linesep
                         ((if index then [str_nat i] else []) @
                          map (\<lambda>kv. snd kv ! i) (columns df)))
                 [0..<nrows df])"

text \<open>
  The local file system: the paths that name a directory, and the text of the files. It
  lets the user write wherever the directory is there; permissions are not modelled.
\<close>

record filesystem =
  directories :: "string set"
  file_text :: "string \<rightharpoonup> string"

text \<open>
  \<^verbatim>\<open>os.path.expanduser\<close> for a path of the current user, whose home directory is
  \<open>home\<close> (a path that starts with \<open>~name\<close> is left as it is here), and the parent of a
  path as \<^verbatim>\<open>pathlib\<close> computes it: empty and \<open>.\<close> components are dropped, the last
  component is left out, and nothing at all is written \<open>.\<close>.
\<close>

definition expanduser :: "string \<Rightarrow> string \<Rightarrow> string" where
  "expanduser home path =
     (if path = ''~'' \<or> take 2 path = ''~/''
      then (let userhome = rev (dropWhile (\<lambda>c. c = CHR ''/'') (rev home));
                expanded = userhome @ drop 1 path
            in if expanded = [] then ''/'' else expanded)
      else path)"

fun split_on :: "char \<Rightarrow> string \<Rightarrow> string list" where
  "split_on sep [] = [[]]"
| "split_on sep (c # s) =
     (if c = sep then [] # split_on sep s
      else (case split_on sep s of
              [] \<Rightarrow> [[c]]
            | part # parts \<Rightarrow> (c # part) # parts))"

definition parent :: "string \<Rightarrow> string" where
  "parent path =
     (let parts = filter (\<lambda>part. part \<noteq> [] \<and> part \<noteq> ''.'') (split_on CHR ''/'' path);
          d = (if take 1 path = ''/'' then ''/'' else []) @ str_join ''/'' (butlast parts)
      in if d = [] then ''.'' else d)"

text \<open>
  \<^verbatim>\<open>df.to_csv(path, index=...)\<close> expands the user's home in the path, raises OSError when
  the parent of the path is not a directory (or the path itself is one), and otherwise
  writes the text to the file.
\<close>

definition to_csv ::
  "dataframe \<Rightarrow> string \<Rightarrow> bool \<Rightarrow> string \<Rightarrow> string \<Rightarrow> filesystem \<Rightarrow> py_error + filesystem" where
  "to_csv df path index home linesep fs =
     (let p = expanduser home path
      in if parent p \<notin> directories fs then Inl OSError
         else if p \<in> directories fs then Inl OSError
         else Inr (fs\<lparr>file_text := (file_text fs)(p \<mapsto> csv_text df index linesep)\<rparr>))"

text \<open>
  \<^verbatim>\<open>
  outpath = "~/data/nfcore"
  sample_sheet.to_csv(outpath + "/" + batch.replace("ccle/", "") + "__samplesheet.csv", index=False)
  \<close>
  \<open>home\<close> and \<open>linesep\<close> are the platform's: the user's home directory and
  \<^verbatim>\<open>os.linesep\<close>.
\<close>

definition cell6 ::
  "string \<Rightarrow> dataframe \<Rightarrow> string \<Rightarrow> string \<Rightarrow> filesystem \<Rightarrow> py_error + filesystem" where
  "cell6 batch sample_sheet home linesep fs =
     (let outpath = ''~/data/nfcore''
      in to_csv sample_sheet
           (outpath @ ''/'' @ str_replace batch ''ccle/'' '''' @ ''__samplesheet.csv'')
           False home linesep fs)"

text \<open>The path cell 6 writes to, with the user's home expanded.\<close>

definition sample_sheet_path :: "string \<Rightarrow> string \<Rightarrow> string" where
  "sample_sheet_path home batch =
     expanduser home (''~/data/nfcore'' @ ''/'' @ str_replace batch ''ccle/'' '''' @
                      ''__samplesheet.csv'')"

section \<open>Reading a CSV text\<close>

text \<open>
  What the fields and records of a text are in the dialect the file is written in: fields
  end at a comma and records at the line terminator, both only outside double quotes;
  inside quotes two quote characters stand for one. The reader goes through the text
  once: \<open>Outside\<close> quotes, \<open>Inside\<close> them, or \<open>Inside\<close> just after a quote character
  (\<open>Quote\<close>), which either closes the quotes or is the first of a doubled pair. \<open>k\<close>
  counts the characters of a line terminator still to be passed over, \<open>f\<close> is the field
  and \<open>fs\<close> the fields of the record read so far.
\<close>

datatype quoting = Outside | Inside | Quote

fun csv_scan ::
  "string \<Rightarrow> quoting \<Rightarrow> nat \<Rightarrow> string \<Rightarrow> string list \<Rightarrow> string \<Rightarrow> string list list" where
  "csv_scan linesep q k f fs [] = (if q = Outside \<and> f = [] \<and> fs = [] then [] else [fs @ [f]])"
| "csv_scan linesep q (Suc k) f fs (c # s) = csv_scan linesep q k f fs s"
| "csv_scan linesep Inside 0 f fs (c # s) =
     (if c = CHR 0x22 then csv_scan linesep Quote 0 f fs s
      else csv_scan linesep Inside 0 (f @ [c]) fs s)"
| "csv_scan linesep q 0 f fs (c # s) =
     (if c = CHR 0x22
      then csv_scan linesep Inside 0 (if q = Quote then f @ [c] else f) fs s
      else if linesep \<noteq> [] \<and> prefix linesep (c # s)
      then (fs @ [f]) # csv_scan linesep Outside (length linesep - 1) [] [] s
      else if c = CHR '',''
      then csv_scan linesep Outside 0 [] (fs @ [f]) s
      else csv_scan linesep Outside 0 (f @ [c]) fs s)"

text \<open>
  The characters that make the writer quote a field.
\<close>

definition special :: "string \<Rightarrow> char \<Rightarrow> bool" where
  "special linesep = (\<lambda>c. c = CHR '','' \<or> c = CHR 0x22 \<or> c \<in> set linesep)"

definition csv_read :: "string \<Rightarrow> string \<Rightarrow> string list list" where
  "csv_read linesep text = csv_scan linesep Outside 0 [] [] text"

section \<open>Names for the parts of cell 4\<close>

text \<open>
  The expressions cell 4 repeats: the identifier after \<^verbatim>\<open>p.replace("ccle/20190225_PRJNA523380_", "")\<close>,
  the location it composes for a file, and its two tests on a file name.
\<close>

definition stripped :: "string \<Rightarrow> string" where
  "stripped p = str_replace p ''ccle/20190225_PRJNA523380_'' ''''"

definition location :: "string \<Rightarrow> string \<Rightarrow> string \<Rightarrow> string \<Rightarrow> string" where
  "location registry batch p file = registry @ ''/'' @ batch @ ''_'' @ stripped p @ ''/'' @ file"

definition is_forward :: "string \<Rightarrow> bool" where
  "is_forward file = str_in ''_1.fastq.gz'' file"

definition is_reverse :: "string \<Rightarrow> bool" where
  "is_reverse file = str_in ''_2.fastq.gz'' file"

text \<open>
  What a listing finds in the registry. \<open>readable\<close>: every identifier of the listing that
  contains the batch filter names a package \<open>pk p\<close> of the registry whose \<open>CellLine\<close> is
  the string \<open>cl p\<close>. \<open>paired_reads\<close>: moreover each of these packages has exactly one
  forward file \<open>f1 p\<close> and one reverse file \<open>f2 p\<close>. \<open>manifest_row\<close> is the row
  cell 4 and cell 5 then make for \<open>p\<close>.
\<close>

definition readable ::
  "registry_store \<Rightarrow> string \<Rightarrow> string \<Rightarrow> string list \<Rightarrow> (string \<Rightarrow> package) \<Rightarrow> (string \<Rightarrow> string) \<Rightarrow> bool" where
  "readable st registry batch packages pk cl =
     (\<forall>p\<in>set packages. str_in batch p \<longrightarrow>
        st (registry, p) = Some (pk p) \<and> meta (pk p) ''CellLine'' = Some (Str (cl p)))"

definition paired_reads ::
  "registry_store \<Rightarrow> string \<Rightarrow> string \<Rightarrow> string list \<Rightarrow> (string \<Rightarrow> package) \<Rightarrow>
   (string \<Rightarrow> string) \<Rightarrow> (string \<Rightarrow> string) \<Rightarrow> (string \<Rightarrow> string) \<Rightarrow> bool" where
  "paired_reads st registry batch packages pk cl f1 f2 =
     (readable st registry batch packages pk cl \<and>
      (\<forall>p\<in>set packages. str_in batch p \<longrightarrow>
         filter is_forward (files (pk p)) = [f1 p] \<and>
         filter is_reverse (files (pk p)) = [f2 p]))"

definition manifest_row ::
  "(string \<Rightarrow> string) \<Rightarrow> (string \<Rightarrow> string) \<Rightarrow> (string \<Rightarrow> string) \<Rightarrow>
   string \<Rightarrow> string \<Rightarrow> string \<Rightarrow> string list" where
  "manifest_row cl f1 f2 registry batch p =
     [cl p @ ''__'' @ stripped p, location registry batch p (f1 p),
      location registry batch p (f2 p), ''auto'']"




text \<open>
  Two registries give a listing the same inputs when, for every identifier of the listing
  that contains the batch filter, both have no such package, or both have one, with the
  same \<open>CellLine\<close> entry and the same file names.
\<close>

definition same_inputs ::
  "registry_store \<Rightarrow> registry_store \<Rightarrow> string \<Rightarrow> string \<Rightarrow> string list \<Rightarrow> bool" where
  "same_inputs st1 st2 registry batch packages =
     (\<forall>p\<in>set packages. str_in batch p \<longrightarrow>
        map_option (\<lambda>pkg. (meta pkg ''CellLine'', files pkg)) (st1 (registry, p)) =
        map_option (\<lambda>pkg. (meta pkg ''CellLine'', files pkg)) (st2 (registry, p)))"

text \<open>
  The state after the print and the browse of an identifier, and after its sample and
  files are added.
\<close>

definition browsed :: "string \<Rightarrow> string \<Rightarrow> env \<Rightarrow> env" where
  "browsed p registry e =
     e\<lparr>stdout := stdout e @ [''>>>>> '' @ p], calls := calls e @ [Browse p registry]\<rparr>"

definition sampled :: "string \<Rightarrow> string \<Rightarrow> string \<Rightarrow> string \<Rightarrow> string list \<Rightarrow> env \<Rightarrow> env" where
  "sampled registry batch p c fs e =
     files_loop registry batch p fs
       ((browsed p registry e)\<lparr>samples := samples e @ [c @ ''__'' @ stripped p]\<rparr>)"

section \<open>Example registries\<close>

text \<open>
  A package as the raw-data packages are: the sample's cell line in the metadata, and the
  names of its files. \<open>notebook\<close> is the state in which cell 4 starts, over a registry.
\<close>

definition sample_package :: "string \<Rightarrow> string list \<Rightarrow> package" where
  "sample_package c fs = \<lparr>meta = [''CellLine'' \<mapsto> Str c], files = fs\<rparr>"

definition notebook :: "registry_store \<Rightarrow> env" where
  "notebook st = \<lparr>samples = [], fastq1 = [], fastq2 = [], stdout = [], store = st, calls = []\<rparr>"

text \<open>
  The client accepts a package name made of two parts around one slash, each part of
  letters, digits, underscores and hyphens, and refuses every other name when a package is
  stored or browsed: a registry holds packages under such names only.
\<close>

definition word_char :: "char \<Rightarrow> bool" where
  "word_char c =
     (c \<in> set ''abcdefghijklmnopqrstuvwxyzABCDEFGHIJKLMNOPQRSTUVWXYZ0123456789_-'')"

definition valid_package_name :: "string \<Rightarrow> bool" where
  "valid_package_name name =
     (let owner = takeWhile (\<lambda>c. c \<noteq> CHR ''/'') name;
          rest = dropWhile (\<lambda>c. c \<noteq> CHR ''/'') name
      in owner \<noteq> [] \<and> list_all word_char owner \<and> rest \<noteq> [] \<and> tl rest \<noteq> [] \<and>
         list_all word_char (tl rest))"

text \<open>
  The registries of the examples below: the spec's fixture; three identifiers, two of one
  batch; two identifiers with one sample id; a file name with both markers; a cell line
  with a comma; packages without a pair of read files; a run that differs from the
  fixture in everything the build does not read; and two file systems, without and with
  the directory that batch \<open>proj/b1\<close> is written to.
\<close>

definition spec_fixture :: env where
  "spec_fixture =
     notebook [(''s3://bkt'', ''proj/b1_s1'') \<mapsto>
                 sample_package ''HELA'' [''s1_1.fastq.gz'', ''s1_2.fastq.gz'']]"

definition listing3 :: env where
  "listing3 =
     notebook [(''s3://bkt'', ''proj/b1_s1'') \<mapsto>
                 sample_package ''HELA'' [''s1_1.fastq.gz'', ''s1_2.fastq.gz''],
               (''s3://bkt'', ''proj/b2_s7'') \<mapsto>
                 sample_package ''A549'' [''s7_1.fastq.gz'', ''s7_2.fastq.gz''],
               (''s3://bkt'', ''proj/b1_s2'') \<mapsto>
                 sample_package ''K562'' [''README.md'', ''s2_1.fastq.gz'', ''s2_2.fastq.gz'']]"


definition both_markers :: env where
  "both_markers =
     notebook [(''s3://bkt'', ''proj/b1_s1'') \<mapsto>
                 sample_package ''HELA'' [''README.md'', ''s1_1.fastq.gz_2.fastq.gz'']]"

definition comma_in_cell_line :: env where
  "comma_in_cell_line =
     notebook [(''s3://bkt'', ''proj/b1_s1'') \<mapsto>
                 sample_package ''HeLa, S3'' [''s1_1.fastq.gz'', ''s1_2.fastq.gz'']]"

definition home_with_nfcore :: filesystem where
  "home_with_nfcore =
     \<lparr>directories = {''/'', ''/home'', ''/home/u'', ''/home/u/data'', ''/home/u/data/nfcore''},
      file_text = Map.empty\<rparr>"

definition home_with_batch_dir :: filesystem where
  "home_with_batch_dir =
     \<lparr>directories = {''/'', ''/home'', ''/home/u'', ''/home/u/data'', ''/home/u/data/nfcore'',
                     ''/home/u/data/nfcore/proj''},
      file_text = Map.empty\<rparr>"

definition no_reads :: env where
  "no_reads =
     notebook [(''s3://bkt'', ''proj/b1_s1'') \<mapsto> sample_package ''HELA'' [''README.md'']]"

definition one_read_missing :: env where
  "one_read_missing =
     notebook [(''s3://bkt'', ''proj/b1_s1'') \<mapsto>
                 sample_package ''HELA'' [''s1_1.fastq.gz'', ''s1_2.fastq.gz''],
               (''s3://bkt'', ''proj/b1_s2'') \<mapsto>
                 sample_package ''K562'' [''s2_1.fastq.gz'']]"

definition uneven :: env where
  "uneven =
     notebook [(''s3://bkt'', ''proj/b1_s1'') \<mapsto> sample_package ''HELA'' [''README.md''],
               (''s3://bkt'', ''proj/b1_s2'') \<mapsto>
                 sample_package ''K562''
                   [''L1_1.fastq.gz'', ''L1_2.fastq.gz'', ''L2_1.fastq.gz'', ''L2_2.fastq.gz'']]"

definition annotated :: env where
  "annotated =
     \<lparr>samples = [''stale''], fastq1 = [], fastq2 = [''stale''], stdout = [''earlier output''],
      store = [(''s3://bkt'', ''proj/b1_s1'') \<mapsto>
                 \<lparr>meta = [''CellLine'' \<mapsto> Str ''HELA'', ''Tissue'' \<mapsto> Str ''cervix''],
                  files = [''s1_1.fastq.gz'', ''s1_2.fastq.gz'']\<rparr>,
               (''s3://bkt'', ''proj/b2_s7'') \<mapsto> sample_package ''A549'' []],
      calls = [Browse ''proj/b2_s7'' ''s3://bkt'']\<rparr>"

definition own_batch :: env where
  "own_batch =
     notebook [(''s3://quilt-example-bucket'', ''ccle/20190225_PRJNA523380_SRR8615222'') \<mapsto>
                 sample_package ''HELA'' [''SRR8615222_1.fastq.gz'', ''SRR8615222_2.fastq.gz'']]"

section \<open>The loops, step by step\<close>

lemma str_in_sublist: "str_in sub s \<longleftrightarrow> sublist sub s"
  by (induction s) (auto simp: sublist_Cons_right)

lemma files_loop_samples [simp]: "samples (files_loop r b p fs e) = samples e"
  by (induction fs arbitrary: e) (simp_all add: Let_def print_def)

lemma files_loop_store [simp]: "store (files_loop r b p fs e) = store e"
  by (induction fs arbitrary: e) (simp_all add: Let_def print_def)

lemma files_loop_calls [simp]: "calls (files_loop r b p fs e) = calls e"
  by (induction fs arbitrary: e) (simp_all add: Let_def print_def)

lemma files_loop_stdout [simp]: "stdout (files_loop r b p fs e) = stdout e @ fs"
  by (induction fs arbitrary: e) (simp_all add: Let_def print_def)

lemma files_loop_fastq1 [simp]:
  "fastq1 (files_loop r b p fs e) = fastq1 e @ map (location r b p) (filter is_forward fs)"
  by (induction fs arbitrary: e)
     (simp_all add: Let_def print_def location_def stripped_def is_forward_def)

lemma files_loop_fastq2 [simp]:
  "fastq2 (files_loop r b p fs e) = fastq2 e @ map (location r b p) (filter is_reverse fs)"
  by (induction fs arbitrary: e)
     (simp_all add: Let_def print_def location_def stripped_def is_reverse_def)

lemma packages_loop_filter:
  "packages_loop registry batch (filter (str_in batch) packages) e =
   packages_loop registry batch packages e"
  by (induction packages arbitrary: e)
     (simp_all split: prod.splits sum.splits)

lemma packages_loop_store: "store (snd (packages_loop registry batch packages e)) = store e"
  by (induction packages arbitrary: e)
     (auto simp: browse_def print_def Let_def split: prod.splits sum.splits option.splits)

lemma packages_loop_readable:
  assumes "readable (store e) registry batch packages pk cl"
  shows "fst (packages_loop registry batch packages e) = None \<and>
         samples (snd (packages_loop registry batch packages e)) =
           samples e @ map (\<lambda>p. cl p @ ''__'' @ stripped p) (filter (str_in batch) packages) \<and>
         fastq1 (snd (packages_loop registry batch packages e)) =
           fastq1 e @ concat (map (\<lambda>p. map (location registry batch p)
                                   (filter is_forward (files (pk p))))
                                (filter (str_in batch) packages)) \<and>
         fastq2 (snd (packages_loop registry batch packages e)) =
           fastq2 e @ concat (map (\<lambda>p. map (location registry batch p)
                                   (filter is_reverse (files (pk p))))
                                (filter (str_in batch) packages))"
  using assms
proof (induction packages arbitrary: e)
  case Nil
  then show ?case by simp
next
  case (Cons p packages)
  show ?case
  proof (cases "str_in batch p")
    case False
    with Cons.IH [of e] Cons.prems show ?thesis
      by (simp add: readable_def)
  next
    case True
    from Cons.prems True have st: "store e (registry, p) = Some (pk p)"
      and cl: "meta (pk p) ''CellLine'' = Some (Str (cl p))"
      by (simp_all add: readable_def)
    let ?e1 = "(print (''>>>>> '' @ p) e)\<lparr>calls := calls e @ [Browse p registry]\<rparr>"
    let ?e2 = "files_loop registry batch p (files (pk p))
                 (?e1\<lparr>samples := samples ?e1 @ [(cl p @ ''__'') @ stripped p]\<rparr>)"
    have step: "packages_loop registry batch (p # packages) e =
                packages_loop registry batch packages ?e2"
      using True st cl
      by (simp add: browse_def print_def Let_def getitem_def str_add_def stripped_def)
    have "readable (store ?e2) registry batch packages pk cl"
      using Cons.prems by (simp add: readable_def print_def)
    from Cons.IH [OF this] show ?thesis
      unfolding step using True by (simp add: print_def)
  qed
qed

lemma cell5_equal:
  assumes "length (fastq1 e) = length (samples e)" and "length (fastq2 e) = length (samples e)"
  shows "cell5 e = Inr \<lparr>nrows = length (samples e),
                        columns = [(''sample'', samples e), (''fastq_1'', fastq1 e),
                                   (''fastq_2'', fastq2 e),
                                   (''strandedness'', replicate (length (samples e)) ''auto'')]\<rparr>"
  using assms by (simp add: cell5_def DataFrame_def insert_column_def shape1_def)

lemma cell5_unequal:
  assumes "length (fastq1 e) \<noteq> length (samples e) \<or> length (fastq2 e) \<noteq> length (samples e)"
  shows "cell5 e = Inl ValueError"
  using assms by (auto simp: cell5_def DataFrame_def)

lemma cell4_readable:
  assumes "readable (store e) registry batch packages pk cl"
  shows "fst (cell4 registry batch packages e) = None"
    and "samples (snd (cell4 registry batch packages e)) =
           map (\<lambda>p. cl p @ ''__'' @ stripped p) (filter (str_in batch) packages)"
    and "fastq1 (snd (cell4 registry batch packages e)) =
           concat (map (\<lambda>p. map (location registry batch p) (filter is_forward (files (pk p))))
                       (filter (str_in batch) packages))"
    and "fastq2 (snd (cell4 registry batch packages e)) =
           concat (map (\<lambda>p. map (location registry batch p) (filter is_reverse (files (pk p))))
                       (filter (str_in batch) packages))"
proof -
  let ?e = "e\<lparr>samples := [], fastq1 := [], fastq2 := []\<rparr>"
  have "readable (store ?e) registry batch packages pk cl"
    using assms by simp
  from packages_loop_readable [OF this]
  show "fst (cell4 registry batch packages e) = None"
    and "samples (snd (cell4 registry batch packages e)) =
           map (\<lambda>p. cl p @ ''__'' @ stripped p) (filter (str_in batch) packages)"
    and "fastq1 (snd (cell4 registry batch packages e)) =
           concat (map (\<lambda>p. map (location registry batch p) (filter is_forward (files (pk p))))
                       (filter (str_in batch) packages))"
    and "fastq2 (snd (cell4 registry batch packages e)) =
           concat (map (\<lambda>p. map (location registry batch p) (filter is_reverse (files (pk p))))
                       (filter (str_in batch) packages))"
    by (simp_all add: cell4_def)
qed

lemma concat_map_single:
  assumes "\<forall>x\<in>set xs. g x = [h x]"
  shows "concat (map (\<lambda>x. map (f x) (g x)) xs) = map (\<lambda>x. f x (h x)) xs"
  using assms by (induction xs) simp_all

lemma build_manifest_result:
  "fst (build_manifest registry batch packages e) =
     (case fst (cell4 registry batch packages e) of
        Some err \<Rightarrow> Inl err
      | None \<Rightarrow> cell5 (snd (cell4 registry batch packages e)))"
  by (simp add: build_manifest_def split: prod.splits option.splits)

lemma build_manifest_env:
  "snd (build_manifest registry batch packages e) = snd (cell4 registry batch packages e)"
  by (simp add: build_manifest_def split: prod.splits option.splits)

lemma build_manifest_paired:
  assumes "paired_reads (store e) registry batch packages pk cl f1 f2"
  shows "fst (build_manifest registry batch packages e) =
           Inr \<lparr>nrows = length (filter (str_in batch) packages),
                columns =
                  [(''sample'', map (\<lambda>p. cl p @ ''__'' @ stripped p) (filter (str_in batch) packages)),
                   (''fastq_1'', map (\<lambda>p. location registry batch p (f1 p)) (filter (str_in batch) packages)),
                   (''fastq_2'', map (\<lambda>p. location registry batch p (f2 p)) (filter (str_in batch) packages)),
                   (''strandedness'', replicate (length (filter (str_in batch) packages)) ''auto'')]\<rparr>"
proof -
  let ?ms = "filter (str_in batch) packages"
  let ?e = "snd (cell4 registry batch packages e)"
  from assms have r: "readable (store e) registry batch packages pk cl"
    and fw: "\<forall>p\<in>set ?ms. filter is_forward (files (pk p)) = [f1 p]"
    and rv: "\<forall>p\<in>set ?ms. filter is_reverse (files (pk p)) = [f2 p]"
    by (simp_all add: paired_reads_def)
  have s: "samples ?e = map (\<lambda>p. cl p @ ''__'' @ stripped p) ?ms"
    by (rule cell4_readable(2) [OF r])
  have a: "fastq1 ?e = map (\<lambda>p. location registry batch p (f1 p)) ?ms"
    unfolding cell4_readable(3) [OF r] by (rule concat_map_single [OF fw])
  have b: "fastq2 ?e = map (\<lambda>p. location registry batch p (f2 p)) ?ms"
    unfolding cell4_readable(4) [OF r] by (rule concat_map_single [OF rv])
  have "cell5 ?e = Inr \<lparr>nrows = length (samples ?e),
                        columns = [(''sample'', samples ?e), (''fastq_1'', fastq1 ?e),
                                   (''fastq_2'', fastq2 ?e),
                                   (''strandedness'', replicate (length (samples ?e)) ''auto'')]\<rparr>"
    by (rule cell5_equal) (simp_all add: s a b)
  then show ?thesis
    by (simp add: build_manifest_result cell4_readable(1) [OF r] s a b)
qed

lemma rows_of_columns:
  "rows \<lparr>nrows = length xs,
         columns = [(''sample'', map s xs), (''fastq_1'', map a xs), (''fastq_2'', map b xs),
                    (''strandedness'', replicate (length xs) ''auto'')]\<rparr> =
   map (\<lambda>p. [s p, a p, b p, ''auto'']) xs"
  by (rule nth_equalityI) (simp_all add: rows_def)

lemma packages_loop_absent:
  "str_in batch p \<Longrightarrow> store e (registry, p) = None \<Longrightarrow>
   packages_loop registry batch (p # packages) e = (Some RegistryAccessError, browsed p registry e)"
  by (simp add: browse_def Let_def print_def browsed_def)

lemma packages_loop_no_key:
  "str_in batch p \<Longrightarrow> store e (registry, p) = Some pkg \<Longrightarrow> meta pkg ''CellLine'' = None \<Longrightarrow>
   packages_loop registry batch (p # packages) e =
     (Some (KeyError ''CellLine''), browsed p registry e)"
  by (simp add: browse_def Let_def print_def browsed_def getitem_def)

lemma packages_loop_non_str:
  "str_in batch p \<Longrightarrow> store e (registry, p) = Some pkg \<Longrightarrow>
   meta pkg ''CellLine'' = Some NonStr \<Longrightarrow>
   packages_loop registry batch (p # packages) e = (Some TypeError, browsed p registry e)"
  by (simp add: browse_def Let_def print_def browsed_def getitem_def str_add_def)

lemma packages_loop_next:
  "str_in batch p \<Longrightarrow> store e (registry, p) = Some pkg \<Longrightarrow>
   meta pkg ''CellLine'' = Some (Str c) \<Longrightarrow>
   packages_loop registry batch (p # packages) e =
     packages_loop registry batch packages (sampled registry batch p c (files pkg) e)"
  by (simp add: browse_def Let_def print_def browsed_def getitem_def str_add_def sampled_def
        stripped_def)

lemma sampled_fields [simp]:
  "samples (sampled registry batch p c fs e) = samples e @ [c @ ''__'' @ stripped p]"
  "fastq1 (sampled registry batch p c fs e) =
     fastq1 e @ map (location registry batch p) (filter is_forward fs)"
  "fastq2 (sampled registry batch p c fs e) =
     fastq2 e @ map (location registry batch p) (filter is_reverse fs)"
  "store (sampled registry batch p c fs e) = store e"
  "calls (sampled registry batch p c fs e) = calls e @ [Browse p registry]"
  by (simp_all add: sampled_def browsed_def)

lemma browsed_fields [simp]:
  "samples (browsed p registry e) = samples e"
  "fastq1 (browsed p registry e) = fastq1 e"
  "fastq2 (browsed p registry e) = fastq2 e"
  "store (browsed p registry e) = store e"
  "calls (browsed p registry e) = calls e @ [Browse p registry]"
  by (simp_all add: browsed_def)

lemma packages_loop_same_inputs:
  assumes "same_inputs (store e1) (store e2) registry batch packages"
    and "samples e1 = samples e2" and "fastq1 e1 = fastq1 e2" and "fastq2 e1 = fastq2 e2"
  shows "fst (packages_loop registry batch packages e1) =
           fst (packages_loop registry batch packages e2) \<and>
         samples (snd (packages_loop registry batch packages e1)) =
           samples (snd (packages_loop registry batch packages e2)) \<and>
         fastq1 (snd (packages_loop registry batch packages e1)) =
           fastq1 (snd (packages_loop registry batch packages e2)) \<and>
         fastq2 (snd (packages_loop registry batch packages e1)) =
           fastq2 (snd (packages_loop registry batch packages e2))"
  using assms
proof (induction packages arbitrary: e1 e2)
  case Nil
  then show ?case by simp
next
  case (Cons p packages)
  note acc = Cons.prems(2-4)
  from Cons.prems(1) have rest: "same_inputs (store e1) (store e2) registry batch packages"
    by (simp add: same_inputs_def)
  show ?case
  proof (cases "str_in batch p")
    case False
    with Cons.IH [OF rest acc] show ?thesis by simp
  next
    case True
    with Cons.prems(1)
    have eq: "map_option (\<lambda>pkg. (meta pkg ''CellLine'', files pkg)) (store e1 (registry, p)) =
              map_option (\<lambda>pkg. (meta pkg ''CellLine'', files pkg)) (store e2 (registry, p))"
      by (simp add: same_inputs_def)
    show ?thesis
    proof (cases "store e1 (registry, p)")
      case None
      with eq have "store e2 (registry, p) = None" by simp
      with None True show ?thesis
        unfolding packages_loop_absent [OF True None]
          packages_loop_absent [OF True \<open>store e2 (registry, p) = None\<close>]
        using acc by simp
    next
      case (Some pkg1)
      note s1 = this
      with eq obtain pkg2 where s2: "store e2 (registry, p) = Some pkg2"
        and m: "meta pkg2 ''CellLine'' = meta pkg1 ''CellLine''"
        and f: "files pkg2 = files pkg1"
        by (cases "store e2 (registry, p)") auto
      show ?thesis
      proof (cases "meta pkg1 ''CellLine''")
        case None
        with m have n2: "meta pkg2 ''CellLine'' = None" by simp
        show ?thesis
          unfolding packages_loop_no_key [OF True s1 None] packages_loop_no_key [OF True s2 n2]
          using acc by simp
      next
        case (Some v)
        note v = this
        show ?thesis
        proof (cases v)
          case NonStr
          with v m have m1: "meta pkg1 ''CellLine'' = Some NonStr"
            and m2: "meta pkg2 ''CellLine'' = Some NonStr" by simp_all
          show ?thesis
            unfolding packages_loop_non_str [OF True s1 m1] packages_loop_non_str [OF True s2 m2]
            using acc by simp
        next
          case (Str c)
          with v m have m1: "meta pkg1 ''CellLine'' = Some (Str c)"
            and m2: "meta pkg2 ''CellLine'' = Some (Str c)" by simp_all
          have step1: "packages_loop registry batch (p # packages) e1 =
                       packages_loop registry batch packages
                         (sampled registry batch p c (files pkg1) e1)"
            by (rule packages_loop_next [OF True s1 m1])
          have step2: "packages_loop registry batch (p # packages) e2 =
                       packages_loop registry batch packages
                         (sampled registry batch p c (files pkg1) e2)"
            using packages_loop_next [OF True s2 m2] by (simp only: f)
          have "same_inputs (store (sampled registry batch p c (files pkg1) e1))
                  (store (sampled registry batch p c (files pkg1) e2)) registry batch packages"
            using rest by simp
          from Cons.IH [OF this] acc show ?thesis
            unfolding step1 step2 by simp
        qed
      qed
    qed
  qed
qed

lemma sum_list_le_length:
  assumes "\<forall>x\<in>set xs. g x \<le> (1::nat)"
  shows "sum_list (map g xs) \<le> length xs"
  using assms
proof (induction xs)
  case Nil
  then show ?case by simp
next
  case (Cons x xs)
  then have "g x \<le> 1" and "sum_list (map g xs) \<le> length xs" by simp_all
  then show ?case by simp
qed

lemma sum_list_less_length:
  assumes "\<forall>x\<in>set xs. g x \<le> (1::nat)" and "\<exists>x\<in>set xs. g x = 0"
  shows "sum_list (map g xs) < length xs"
  using assms
proof (induction xs)
  case Nil
  then show ?case by simp
next
  case (Cons x xs)
  from Cons.prems(1) have le: "sum_list (map g xs) \<le> length xs"
    by (intro sum_list_le_length) simp
  show ?case
  proof (cases "g x = 0")
    case True
    with le show ?thesis by simp
  next
    case False
    with Cons.prems have "\<exists>x\<in>set xs. g x = 0" and "g x \<le> 1" and "\<forall>x\<in>set xs. g x \<le> 1"
      by auto
    with Cons.IH have "sum_list (map g xs) < length xs" by blast
    with \<open>g x \<le> 1\<close> show ?thesis by simp
  qed
qed

lemma length_concat_map:
  "length (concat (map (\<lambda>x. map (f x) (g x)) xs)) = sum_list (map (\<lambda>x. length (g x)) xs)"
  by (induction xs) simp_all

lemma packages_loop_calls:
  "\<exists>ps. prefix ps (filter (str_in batch) packages) \<and>
        calls (snd (packages_loop registry batch packages e)) =
          calls e @ map (\<lambda>p. Browse p registry) ps"
proof (induction packages arbitrary: e)
  case Nil
  then show ?case by simp
next
  case (Cons p packages)
  show ?case
  proof (cases "str_in batch p")
    case False
    with Cons.IH [of e] show ?thesis by simp
  next
    case True
    have raised: ?thesis
      if "packages_loop registry batch (p # packages) e = (Some err, browsed p registry e)" for err
    proof -
      have "prefix [p] (filter (str_in batch) (p # packages))"
        using True by simp
      moreover have "calls (snd (packages_loop registry batch (p # packages) e)) =
                     calls e @ map (\<lambda>p. Browse p registry) [p]"
        unfolding that by simp
      ultimately show ?thesis by blast
    qed
    show ?thesis
    proof (cases "store e (registry, p)")
      case None
      show ?thesis by (rule raised) (rule packages_loop_absent [OF True None])
    next
      case (Some pkg)
      note s = this
      show ?thesis
      proof (cases "meta pkg ''CellLine''")
        case None
        show ?thesis by (rule raised) (rule packages_loop_no_key [OF True s None])
      next
        case (Some v)
        show ?thesis
        proof (cases v)
          case NonStr
          with Some have "meta pkg ''CellLine'' = Some NonStr" by simp
          then show ?thesis by (intro raised) (rule packages_loop_non_str [OF True s])
        next
          case (Str c)
          let ?e2 = "sampled registry batch p c (files pkg) e"
          have step: "packages_loop registry batch (p # packages) e =
                      packages_loop registry batch packages ?e2"
            using Some Str by (intro packages_loop_next [OF True s]) simp
          from Cons.IH [of ?e2] obtain ps where
            ps: "prefix ps (filter (str_in batch) packages)"
            and c: "calls (snd (packages_loop registry batch packages ?e2)) =
                    calls ?e2 @ map (\<lambda>p. Browse p registry) ps"
            by blast
          have "prefix (p # ps) (filter (str_in batch) (p # packages))"
            using True ps by simp
          moreover have "calls (snd (packages_loop registry batch (p # packages) e)) =
                         calls e @ map (\<lambda>p. Browse p registry) (p # ps)"
            unfolding step c by simp
          ultimately show ?thesis by blast
        qed
      qed
    qed
  qed
qed

lemmas run_defs =
  build_manifest_def cell4_def cell5_def DataFrame_def insert_column_def shape1_def
  notebook_def sample_package_def browse_def print_def getitem_def str_add_def Let_def

lemma csv_field_plain:
  assumes "linesep = [CHR 0x0A] \<or> linesep = [CHR 0x0D, CHR 0x0A]"
  shows "csv_field linesep ''sample'' = ''sample''"
    and "csv_field linesep ''fastq_1'' = ''fastq_1''"
    and "csv_field linesep ''fastq_2'' = ''fastq_2''"
    and "csv_field linesep ''strandedness'' = ''strandedness''"
    and "csv_field linesep ''auto'' = ''auto''"
  using assms by (auto simp: csv_field_def)

lemma push_stores: "store (push pkg name registry message e) (registry, name) = Some pkg"
  by (simp add: push_def)

lemma cell5_accumulators:
  assumes "samples e1 = samples e2" and "fastq1 e1 = fastq1 e2" and "fastq2 e1 = fastq2 e2"
  shows "cell5 e1 = cell5 e2"
  using assms by (simp add: cell5_def)

lemma is_forward_eq: "is_forward = str_in ''_1.fastq.gz''"
  by (rule ext) (simp add: is_forward_def)

lemma is_reverse_eq: "is_reverse = str_in ''_2.fastq.gz''"
  by (rule ext) (simp add: is_reverse_def)

lemma str_in_prefix: "prefix sub s \<Longrightarrow> str_in sub s"
  by (cases s) simp_all

lemma str_replace_absent:
  "\<not> str_in (a # old) s \<Longrightarrow> str_replace s (a # old) new = s"
  by (induction s) auto

lemma str_replace_prefix:
  "str_replace ((a # old) @ s) (a # old) new = new @ str_replace s (a # old) new"
  by simp

lemma stripped_own:
  assumes "\<not> str_in ''ccle/20190225_PRJNA523380_'' s"
  shows "stripped (''ccle/20190225_PRJNA523380_'' @ s) = s"
proof -
  have "stripped (''ccle/20190225_PRJNA523380_'' @ s) =
        [] @ str_replace s ''ccle/20190225_PRJNA523380_'' []"
    unfolding stripped_def by (rule str_replace_prefix)
  with assms show ?thesis by (simp add: str_replace_absent)
qed



lemma example_names_valid:
  "valid_package_name ''proj/b1_s1''"
  "valid_package_name ''proj/b2_s7''"
  "valid_package_name ''proj/b1_s2''"
  "valid_package_name ''ccle/20190225_PRJNA523380_AB''"
  "valid_package_name ''Accle/20190225_PRJNA523380_B''"
  "valid_package_name ''ccle/20190225_PRJNA523380_SRR8615222''"
  by (simp_all add: valid_package_name_def word_char_def)

section \<open>Reading back what was written\<close>

text \<open>
  The reader finds in a written text the fields that were written: a plain field is read
  as it stands, a quoted one loses its quotes and the doubling of its quote characters,
  and a comma or a line terminator inside a field ends nothing.
\<close>

lemma csv_field_special:
  "csv_field linesep f =
     (if list_ex (special linesep) f
      then [CHR 0x22] @ concat (map (\<lambda>c. if c = CHR 0x22 then [c, c] else [c]) f) @ [CHR 0x22]
      else f)"
  by (simp add: csv_field_def special_def)

lemma not_prefix_linesep:
  assumes "c \<notin> set linesep"
  shows "\<not> (linesep \<noteq> [] \<and> prefix linesep (c # s))"
  using assms by (cases linesep) auto

lemma csv_scan_skip:
  "csv_scan linesep q (length xs) f fs (xs @ s) = csv_scan linesep q 0 f fs s"
  by (induction xs) simp_all

lemma csv_scan_plain:
  assumes "\<not> list_ex (special linesep) g"
  shows "csv_scan linesep Outside 0 f fs (g @ s) = csv_scan linesep Outside 0 (f @ g) fs s"
  using assms
proof (induction g arbitrary: f)
  case Nil
  then show ?case by simp
next
  case (Cons c g)
  then have c: "c \<noteq> CHR '',''" "c \<noteq> CHR 0x22" "c \<notin> set linesep"
    and g: "\<not> list_ex (special linesep) g"
    by (simp_all add: special_def)
  from c(3) have "\<not> (linesep \<noteq> [] \<and> prefix linesep (c # g @ s))"
    by (rule not_prefix_linesep)
  with c have "csv_scan linesep Outside 0 f fs ((c # g) @ s) =
               csv_scan linesep Outside 0 (f @ [c]) fs (g @ s)"
    by auto
  with Cons.IH [OF g, of "f @ [c]"] show ?case by simp
qed

lemma csv_scan_quoted:
  "csv_scan linesep Inside 0 f fs
     (concat (map (\<lambda>c. if c = CHR 0x22 then [c, c] else [c]) g) @ CHR 0x22 # s) =
   csv_scan linesep Quote 0 (f @ g) fs s"
proof (induction g arbitrary: f)
  case Nil
  show ?case by simp
next
  case (Cons c g)
  show ?case
  proof (cases "c = CHR 0x22")
    case True
    with Cons.IH [of "f @ [c]"] show ?thesis by simp
  next
    case False
    with Cons.IH [of "f @ [c]"] show ?thesis by simp
  qed
qed

lemma csv_scan_field:
  "csv_scan linesep Outside 0 [] fs (csv_field linesep g @ s) =
     (if list_ex (special linesep) g then csv_scan linesep Quote 0 g fs s
      else csv_scan linesep Outside 0 g fs s)"
proof (cases "list_ex (special linesep) g")
  case True
  then have "csv_field linesep g @ s =
             CHR 0x22 # concat (map (\<lambda>c. if c = CHR 0x22 then [c, c] else [c]) g) @ CHR 0x22 # s"
    by (simp add: csv_field_special)
  with True csv_scan_quoted [of linesep "[]" fs g s] show ?thesis by simp
next
  case False
  with csv_scan_plain [OF False, of "[]" fs s] show ?thesis
    by (simp add: csv_field_special)
qed

lemma csv_scan_comma:
  assumes "CHR '','' \<notin> set linesep" and "q \<noteq> Inside"
  shows "csv_scan linesep q 0 f fs (CHR '','' # s) = csv_scan linesep Outside 0 [] (fs @ [f]) s"
proof -
  from assms(1) have "\<not> (linesep \<noteq> [] \<and> prefix linesep (CHR '','' # s))"
    by (rule not_prefix_linesep)
  with assms(2) show ?thesis by (cases q) auto
qed

lemma csv_scan_linesep:
  assumes "linesep \<noteq> []" and "CHR 0x22 \<notin> set linesep" and "q \<noteq> Inside"
  shows "csv_scan linesep q 0 f fs (linesep @ s) =
         (fs @ [f]) # csv_scan linesep Outside 0 [] [] s"
proof -
  from assms(1) obtain c t where l: "linesep = c # t" by (cases linesep) auto
  with assms(2) have c: "c \<noteq> CHR 0x22" by auto
  have "csv_scan linesep q 0 f fs (c # t @ s) =
        (fs @ [f]) # csv_scan linesep Outside (length linesep - 1) [] [] (t @ s)"
    using assms(3) c l by (cases q) auto
  also have "csv_scan linesep Outside (length linesep - 1) [] [] (t @ s) =
             csv_scan linesep Outside 0 [] [] s"
    using csv_scan_skip [of linesep Outside t "[]" "[]" s] l by simp
  finally show ?thesis using l by simp
qed

lemma csv_scan_field_comma:
  assumes "CHR '','' \<notin> set linesep"
  shows "csv_scan linesep Outside 0 [] fs (csv_field linesep g @ CHR '','' # s) =
         csv_scan linesep Outside 0 [] (fs @ [g]) s"
proof -
  have a: "csv_scan linesep Quote 0 g fs (CHR '','' # s) =
           csv_scan linesep Outside 0 [] (fs @ [g]) s"
    by (rule csv_scan_comma [OF assms]) simp
  have b: "csv_scan linesep Outside 0 g fs (CHR '','' # s) =
           csv_scan linesep Outside 0 [] (fs @ [g]) s"
    by (rule csv_scan_comma [OF assms]) simp
  show ?thesis unfolding csv_scan_field a b by simp
qed

lemma csv_scan_field_linesep:
  assumes "linesep \<noteq> []" and "CHR 0x22 \<notin> set linesep"
  shows "csv_scan linesep Outside 0 [] fs (csv_field linesep g @ linesep @ s) =
         (fs @ [g]) # csv_scan linesep Outside 0 [] [] s"
proof -
  have a: "csv_scan linesep Quote 0 g fs (linesep @ s) =
           (fs @ [g]) # csv_scan linesep Outside 0 [] [] s"
    by (rule csv_scan_linesep [OF assms]) simp
  have b: "csv_scan linesep Outside 0 g fs (linesep @ s) =
           (fs @ [g]) # csv_scan linesep Outside 0 [] [] s"
    by (rule csv_scan_linesep [OF assms]) simp
  show ?thesis unfolding csv_scan_field a b by simp
qed

lemma csv_scan_joined:
  assumes "linesep \<noteq> []" and "CHR 0x22 \<notin> set linesep" and "CHR '','' \<notin> set linesep"
    and "gs \<noteq> []"
  shows "csv_scan linesep Outside 0 [] fs
           (str_join '','' (map (csv_field linesep) gs) @ linesep @ s) =
         (fs @ gs) # csv_scan linesep Outside 0 [] [] s"
  using assms(4)
proof (induction gs arbitrary: fs)
  case Nil
  then show ?case by simp
next
  case (Cons g gs)
  show ?case
  proof (cases gs)
    case Nil
    then show ?thesis
      by (simp add: csv_scan_field_linesep [OF assms(1,2)])
  next
    case (Cons h hs)
    then have "str_join '','' (map (csv_field linesep) (g # gs)) @ linesep @ s =
               csv_field linesep g @ CHR '','' #
               (str_join '','' (map (csv_field linesep) gs) @ linesep @ s)"
      by simp
    moreover have "csv_scan linesep Outside 0 [] (fs @ [g])
                     (str_join '','' (map (csv_field linesep) gs) @ linesep @ s) =
                   ((fs @ [g]) @ gs) # csv_scan linesep Outside 0 [] [] s"
      using Cons by (intro Cons.IH) simp
    ultimately show ?thesis
      by (simp add: csv_scan_field_comma [OF assms(3)])
  qed
qed

lemma csv_scan_record:
  assumes "linesep \<noteq> []" and "CHR 0x22 \<notin> set linesep" and "CHR '','' \<notin> set linesep"
    and "gs \<noteq> []"
  shows "csv_scan linesep Outside 0 [] [] (csv_record linesep gs @ s) =
         gs # csv_scan linesep Outside 0 [] [] s"
proof (cases "gs = [[]]")
  case True
  have "csv_scan linesep Outside 0 [] [] (CHR 0x22 # CHR 0x22 # linesep @ s) =
        csv_scan linesep Quote 0 [] [] (linesep @ s)"
    by simp
  with True show ?thesis
    by (simp add: csv_record_def csv_scan_linesep [OF assms(1,2)])
next
  case False
  with csv_scan_joined [OF assms, of "[]" s] show ?thesis
    by (simp add: csv_record_def)
qed

lemma csv_scan_records:
  assumes "linesep \<noteq> []" and "CHR 0x22 \<notin> set linesep" and "CHR '','' \<notin> set linesep"
    and "\<forall>gs\<in>set rs. gs \<noteq> []"
  shows "csv_scan linesep Outside 0 [] [] (concat (map (csv_record linesep) rs) @ s) =
         rs @ csv_scan linesep Outside 0 [] [] s"
  using assms(4)
proof (induction rs)
  case Nil
  show ?case by simp
next
  case (Cons gs rs)
  then have "gs \<noteq> []" and "\<forall>gs\<in>set rs. gs \<noteq> []" by simp_all
  with Cons.IH csv_scan_record [OF assms(1-3), of gs "concat (map (csv_record linesep) rs) @ s"]
  show ?case by simp
qed

lemma csv_text_rows:
  "csv_text df False linesep =
     concat (map (csv_record linesep) (map fst (columns df) # rows df))"
  by (simp add: csv_text_def rows_def comp_def)

lemma csv_read_csv_text:
  assumes "linesep \<noteq> []" and "CHR 0x22 \<notin> set linesep" and "CHR '','' \<notin> set linesep"
    and "columns df \<noteq> []"
  shows "csv_read linesep (csv_text df False linesep) = map fst (columns df) # rows df"
proof -
  from assms(4) have "\<forall>gs\<in>set (map fst (columns df) # rows df). gs \<noteq> []"
    by (auto simp: rows_def)
  from csv_scan_records [OF assms(1-3) this, of "[]"] show ?thesis
    by (simp add: csv_read_def csv_text_rows)
qed

lemma cell6_written:
  "cell6 batch df home linesep fs =
     (if parent (sample_sheet_path home batch) \<in> directories fs \<and>
         sample_sheet_path home batch \<notin> directories fs
      then Inr (fs\<lparr>file_text := (file_text fs)(sample_sheet_path home batch \<mapsto>
                                      csv_text df False linesep)\<rparr>)
      else Inl OSError)"
  by (simp add: cell6_def to_csv_def sample_sheet_path_def Let_def)

section \<open>The manifest of a listing\<close>

text \<open>
  C1, at the spec's fixture (registry \<open>s3://bkt\<close>, batch \<open>proj/b1\<close>, identifier
  \<open>proj/b1_s1\<close>, cell line \<open>HELA\<close>, one forward and one reverse file). Cell 4 strips
  the literal \<open>ccle/20190225_PRJNA523380_\<close>, not the batch name given in \<open>batch\<close>, so
  the identifier \<open>proj/b1_s1\<close> stays whole: the sample is \<open>HELA__proj/b1_s1\<close> where
  the formula gives \<open>HELA__s1\<close>, and the locations repeat the batch name.
\<close>

theorem spec_fixture_row:
  "fst (build_manifest ''s3://bkt'' ''proj/b1'' [''proj/b1_s1''] spec_fixture) =
     Inr \<lparr>nrows = 1,
          columns = [(''sample'', [''HELA__proj/b1_s1'']),
                     (''fastq_1'', [''s3://bkt/proj/b1_proj/b1_s1/s1_1.fastq.gz'']),
                     (''fastq_2'', [''s3://bkt/proj/b1_proj/b1_s1/s1_2.fastq.gz'']),
                     (''strandedness'', [''auto''])]\<rparr>"
  by (simp add: build_manifest_def cell4_def cell5_def DataFrame_def insert_column_def shape1_def
        spec_fixture_def notebook_def sample_package_def browse_def print_def getitem_def
        str_add_def Let_def)

text \<open>
  For the batch the notebook is written for, \<open>ccle/20190225_PRJNA523380\<close>, the literal
  is the batch name with an underscore: an identifier made of it and a name \<open>s\<close> in which
  it does not occur again gives the row of the formula.
\<close>

lemma own_batch_row:
  assumes "\<not> str_in ''ccle/20190225_PRJNA523380_'' s"
    and "store e (registry, ''ccle/20190225_PRJNA523380_'' @ s) = Some pkg"
    and "meta pkg ''CellLine'' = Some (Str c)"
    and "filter (str_in ''_1.fastq.gz'') (files pkg) = [f1]"
    and "filter (str_in ''_2.fastq.gz'') (files pkg) = [f2]"
  shows "\<exists>df. fst (build_manifest registry ''ccle/20190225_PRJNA523380''
                     [''ccle/20190225_PRJNA523380_'' @ s] e) = Inr df \<and>
              rows df = [[c @ ''__'' @ s,
                          registry @ ''/'' @ ''ccle/20190225_PRJNA523380'' @ ''_'' @ s @ ''/'' @ f1,
                          registry @ ''/'' @ ''ccle/20190225_PRJNA523380'' @ ''_'' @ s @ ''/'' @ f2,
                          ''auto'']]"
proof -
  let ?b = "''ccle/20190225_PRJNA523380''"
  let ?p = "''ccle/20190225_PRJNA523380_'' @ s"
  have m: "str_in ?b ?p"
    by (rule str_in_prefix) simp
  then have ms: "filter (str_in ?b) [?p] = [?p]" by simp
  have "paired_reads (store e) registry ?b [?p] (\<lambda>_. pkg) (\<lambda>_. c) (\<lambda>_. f1) (\<lambda>_. f2)"
    using assms(2-5) by (simp add: paired_reads_def readable_def is_forward_eq is_reverse_eq)
  from build_manifest_paired [OF this] show ?thesis
    unfolding ms
    by (simp add: rows_def location_def stripped_own [OF assms(1), simplified])
qed

lemma own_batch_row_example:
  "\<exists>df. fst (build_manifest ''s3://quilt-example-bucket'' ''ccle/20190225_PRJNA523380''
               [''ccle/20190225_PRJNA523380_SRR8615222''] own_batch) = Inr df \<and>
        rows df =
          [[''HELA__SRR8615222'',
            ''s3://quilt-example-bucket/ccle/20190225_PRJNA523380_SRR8615222/SRR8615222_1.fastq.gz'',
            ''s3://quilt-example-bucket/ccle/20190225_PRJNA523380_SRR8615222/SRR8615222_2.fastq.gz'',
            ''auto'']]"
proof -
  have a: "\<not> str_in ''ccle/20190225_PRJNA523380_'' ''SRR8615222''" by simp
  have s: "store own_batch (''s3://quilt-example-bucket'',
                            ''ccle/20190225_PRJNA523380_'' @ ''SRR8615222'') =
           Some (sample_package ''HELA'' [''SRR8615222_1.fastq.gz'', ''SRR8615222_2.fastq.gz''])"
    by (simp add: own_batch_def notebook_def)
  have c: "meta (sample_package ''HELA'' [''SRR8615222_1.fastq.gz'', ''SRR8615222_2.fastq.gz''])
             ''CellLine'' = Some (Str ''HELA'')"
    by (simp add: sample_package_def)
  have f: "filter (str_in ''_1.fastq.gz'')
             (files (sample_package ''HELA'' [''SRR8615222_1.fastq.gz'', ''SRR8615222_2.fastq.gz''])) =
           [''SRR8615222_1.fastq.gz'']"
    by (simp add: sample_package_def)
  have r: "filter (str_in ''_2.fastq.gz'')
             (files (sample_package ''HELA'' [''SRR8615222_1.fastq.gz'', ''SRR8615222_2.fastq.gz''])) =
           [''SRR8615222_2.fastq.gz'']"
    by (simp add: sample_package_def)
  from own_batch_row [OF a s c f r] show ?thesis by simp
qed

text \<open>
  C2: identifiers that do not contain the batch filter leave no trace: the build over a
  listing is the build over its matching identifiers alone. When every matching package
  can be read and has exactly one forward and one reverse file, the manifest has exactly
  one row per matching identifier, in the order of the listing.
\<close>

theorem manifest_rows_of_matching_entries:
  "build_manifest registry batch (filter (str_in batch) packages) e =
     build_manifest registry batch packages e \<and>
   (paired_reads (store e) registry batch packages pk cl f1 f2 \<longrightarrow>
      (\<exists>df. fst (build_manifest registry batch packages e) = Inr df \<and>
            rows df = map (manifest_row cl f1 f2 registry batch)
                          (filter (str_in batch) packages)))"
proof (intro conjI impI)
  show "build_manifest registry batch (filter (str_in batch) packages) e =
        build_manifest registry batch packages e"
    by (simp add: build_manifest_def cell4_def packages_loop_filter)
next
  assume "paired_reads (store e) registry batch packages pk cl f1 f2"
  from build_manifest_paired [OF this]
  show "\<exists>df. fst (build_manifest registry batch packages e) = Inr df \<and>
             rows df = map (manifest_row cl f1 f2 registry batch)
                           (filter (str_in batch) packages)"
    by (simp add: rows_of_columns manifest_row_def)
qed

text \<open>
  A listing of three identifiers, two of them in batch \<open>proj/b1\<close>: two rows, in the
  listing's order.
\<close>

lemma listing3_paired:
  "paired_reads (store listing3) ''s3://bkt'' ''proj/b1''
     [''proj/b1_s1'', ''proj/b2_s7'', ''proj/b1_s2'']
     (\<lambda>p. if p = ''proj/b1_s1''
          then sample_package ''HELA'' [''s1_1.fastq.gz'', ''s1_2.fastq.gz'']
          else sample_package ''K562'' [''README.md'', ''s2_1.fastq.gz'', ''s2_2.fastq.gz''])
     (\<lambda>p. if p = ''proj/b1_s1'' then ''HELA'' else ''K562'')
     (\<lambda>p. if p = ''proj/b1_s1'' then ''s1_1.fastq.gz'' else ''s2_1.fastq.gz'')
     (\<lambda>p. if p = ''proj/b1_s1'' then ''s1_2.fastq.gz'' else ''s2_2.fastq.gz'')"
  by (simp add: paired_reads_def readable_def listing3_def notebook_def sample_package_def
        is_forward_def is_reverse_def)

theorem manifest_rows_of_matching_entries_witness:
  "paired_reads (store listing3) ''s3://bkt'' ''proj/b1''
     [''proj/b1_s1'', ''proj/b2_s7'', ''proj/b1_s2'']
     (\<lambda>p. if p = ''proj/b1_s1''
          then sample_package ''HELA'' [''s1_1.fastq.gz'', ''s1_2.fastq.gz'']
          else sample_package ''K562'' [''README.md'', ''s2_1.fastq.gz'', ''s2_2.fastq.gz''])
     (\<lambda>p. if p = ''proj/b1_s1'' then ''HELA'' else ''K562'')
     (\<lambda>p. if p = ''proj/b1_s1'' then ''s1_1.fastq.gz'' else ''s2_1.fastq.gz'')
     (\<lambda>p. if p = ''proj/b1_s1'' then ''s1_2.fastq.gz'' else ''s2_2.fastq.gz'') \<and>
   (\<exists>df. fst (build_manifest ''s3://bkt'' ''proj/b1''
                [''proj/b1_s1'', ''proj/b2_s7'', ''proj/b1_s2''] listing3) = Inr df \<and>
         rows df =
           [[''HELA__proj/b1_s1'', ''s3://bkt/proj/b1_proj/b1_s1/s1_1.fastq.gz'',
             ''s3://bkt/proj/b1_proj/b1_s1/s1_2.fastq.gz'', ''auto''],
            [''K562__proj/b1_s2'', ''s3://bkt/proj/b1_proj/b1_s2/s2_1.fastq.gz'',
             ''s3://bkt/proj/b1_proj/b1_s2/s2_2.fastq.gz'', ''auto'']])"
  using listing3_paired
    manifest_rows_of_matching_entries [of "''s3://bkt''" "''proj/b1''"
      "[''proj/b1_s1'', ''proj/b2_s7'', ''proj/b1_s2'']" listing3
      "\<lambda>p. if p = ''proj/b1_s1''
          then sample_package ''HELA'' [''s1_1.fastq.gz'', ''s1_2.fastq.gz'']
          else sample_package ''K562'' [''README.md'', ''s2_1.fastq.gz'', ''s2_2.fastq.gz'']"
      "\<lambda>p. if p = ''proj/b1_s1'' then ''HELA'' else ''K562''"
      "\<lambda>p. if p = ''proj/b1_s1'' then ''s1_1.fastq.gz'' else ''s2_1.fastq.gz''"
      "\<lambda>p. if p = ''proj/b1_s1'' then ''s1_2.fastq.gz'' else ''s2_2.fastq.gz''"]
  by (simp add: manifest_row_def location_def stripped_def)



section \<open>Packages without a pair of read files\<close>

text \<open>
  C3, as stated, fails: a listing whose only matching package has no file named like a
  read does not give a manifest with an empty location. The sample is appended, no location
  is, and the data frame refuses columns of different lengths.
\<close>

theorem no_reads_raises:
  "fst (build_manifest ''s3://bkt'' ''proj/b1'' [''proj/b1_s1''] no_reads) = Inl ValueError"
  by (simp add: run_defs no_reads_def)

text \<open>
  C3, amended: when every matching package can be read, none has more than one forward
  or more than one reverse file, and some matching package has no forward or no reverse
  file, building the manifest raises ValueError; no manifest is produced.
\<close>

theorem missing_read_raises:
  assumes "readable (store e) registry batch packages pk cl"
    and "\<forall>p\<in>set packages. str_in batch p \<longrightarrow>
           length (filter is_forward (files (pk p))) \<le> 1 \<and>
           length (filter is_reverse (files (pk p))) \<le> 1"
    and "\<exists>p\<in>set packages. str_in batch p \<and>
           (filter is_forward (files (pk p)) = [] \<or> filter is_reverse (files (pk p)) = [])"
  shows "fst (build_manifest registry batch packages e) = Inl ValueError"
proof -
  let ?ms = "filter (str_in batch) packages"
  let ?e = "snd (cell4 registry batch packages e)"
  let ?fw = "\<lambda>p. length (filter is_forward (files (pk p)))"
  let ?rv = "\<lambda>p. length (filter is_reverse (files (pk p)))"
  have s: "length (samples ?e) = length ?ms"
    by (simp add: cell4_readable(2) [OF assms(1)])
  have a: "length (fastq1 ?e) = sum_list (map ?fw ?ms)"
    by (simp add: cell4_readable(3) [OF assms(1)] length_concat_map)
  have b: "length (fastq2 ?e) = sum_list (map ?rv ?ms)"
    by (simp add: cell4_readable(4) [OF assms(1)] length_concat_map)
  from assms(2) have fw1: "\<forall>p\<in>set ?ms. ?fw p \<le> 1" and rv1: "\<forall>p\<in>set ?ms. ?rv p \<le> 1"
    by simp_all
  from assms(3) have "(\<exists>p\<in>set ?ms. ?fw p = 0) \<or> (\<exists>p\<in>set ?ms. ?rv p = 0)"
    by auto
  then have "sum_list (map ?fw ?ms) < length ?ms \<or> sum_list (map ?rv ?ms) < length ?ms"
    using sum_list_less_length [OF fw1] sum_list_less_length [OF rv1] by blast
  with s a b have "length (fastq1 ?e) \<noteq> length (samples ?e) \<or>
                   length (fastq2 ?e) \<noteq> length (samples ?e)"
    by auto
  then have "cell5 ?e = Inl ValueError" by (rule cell5_unequal)
  then show ?thesis
    by (simp add: build_manifest_result cell4_readable(1) [OF assms(1)])
qed

text \<open>
  Two matching packages, the second with a forward file only.
\<close>

theorem missing_read_raises_witness:
  "fst (build_manifest ''s3://bkt'' ''proj/b1'' [''proj/b1_s1'', ''proj/b1_s2'']
         one_read_missing) = Inl ValueError"
proof -
  let ?pk = "\<lambda>p. if p = ''proj/b1_s1''
               then sample_package ''HELA'' [''s1_1.fastq.gz'', ''s1_2.fastq.gz'']
               else sample_package ''K562'' [''s2_1.fastq.gz'']"
  let ?cl = "\<lambda>p. if p = ''proj/b1_s1'' then ''HELA'' else ''K562''"
  have r: "readable (store one_read_missing) ''s3://bkt'' ''proj/b1''
             [''proj/b1_s1'', ''proj/b1_s2''] ?pk ?cl"
    by (simp add: readable_def one_read_missing_def notebook_def sample_package_def)
  have m: "\<forall>p\<in>set [''proj/b1_s1'', ''proj/b1_s2'']. str_in ''proj/b1'' p \<longrightarrow>
             length (filter is_forward (files (?pk p))) \<le> 1 \<and>
             length (filter is_reverse (files (?pk p))) \<le> 1"
    by (simp add: sample_package_def is_forward_def is_reverse_def)
  have z: "\<exists>p\<in>set [''proj/b1_s1'', ''proj/b1_s2'']. str_in ''proj/b1'' p \<and>
             (filter is_forward (files (?pk p)) = [] \<or> filter is_reverse (files (?pk p)) = [])"
    by (simp add: sample_package_def is_forward_def is_reverse_def)
  show ?thesis by (rule missing_read_raises [OF r m z])
qed

text \<open>
  C9, as stated, fails in its account of when the lengths differ: a package with no read
  files and a package with two pairs of them give three lists of length two. The data
  frame is built, and the first package's row holds the second package's files.
\<close>

theorem uneven_listing_builds:
  "fst (build_manifest ''s3://bkt'' ''proj/b1'' [''proj/b1_s1'', ''proj/b1_s2''] uneven) =
     Inr \<lparr>nrows = 2,
          columns = [(''sample'', [''HELA__proj/b1_s1'', ''K562__proj/b1_s2'']),
                     (''fastq_1'', [''s3://bkt/proj/b1_proj/b1_s2/L1_1.fastq.gz'',
                                    ''s3://bkt/proj/b1_proj/b1_s2/L2_1.fastq.gz'']),
                     (''fastq_2'', [''s3://bkt/proj/b1_proj/b1_s2/L1_2.fastq.gz'',
                                    ''s3://bkt/proj/b1_proj/b1_s2/L2_2.fastq.gz'']),
                     (''strandedness'', [''auto'', ''auto''])]\<rparr>"
  by (simp add: run_defs uneven_def numeral_2_eq_2)

text \<open>
  C9, amended: whenever the forward or the reverse locations are not as many as the
  samples, cell 5 raises ValueError and gives no data frame. After cell 4 over readable
  packages the samples are as many as the matching packages, and the forward (reverse)
  locations as many as the forward (reverse) files of all matching packages together: the
  lengths differ exactly when one of these totals is not the number of matching packages.
\<close>

theorem unequal_lengths_raise:
  "(length (fastq1 e') \<noteq> length (samples e') \<or> length (fastq2 e') \<noteq> length (samples e') \<longrightarrow>
      cell5 e' = Inl ValueError) \<and>
   (readable (store e) registry batch packages pk cl \<longrightarrow>
      length (samples (snd (cell4 registry batch packages e))) =
        length (filter (str_in batch) packages) \<and>
      length (fastq1 (snd (cell4 registry batch packages e))) =
        sum_list (map (\<lambda>p. length (filter is_forward (files (pk p))))
                      (filter (str_in batch) packages)) \<and>
      length (fastq2 (snd (cell4 registry batch packages e))) =
        sum_list (map (\<lambda>p. length (filter is_reverse (files (pk p))))
                      (filter (str_in batch) packages)))"
proof (intro conjI impI)
  assume "length (fastq1 e') \<noteq> length (samples e') \<or> length (fastq2 e') \<noteq> length (samples e')"
  then show "cell5 e' = Inl ValueError" by (rule cell5_unequal)
next
  assume r: "readable (store e) registry batch packages pk cl"
  show "length (samples (snd (cell4 registry batch packages e))) =
          length (filter (str_in batch) packages)"
    by (simp add: cell4_readable(2) [OF r])
  show "length (fastq1 (snd (cell4 registry batch packages e))) =
          sum_list (map (\<lambda>p. length (filter is_forward (files (pk p))))
                        (filter (str_in batch) packages))"
    by (simp add: cell4_readable(3) [OF r] length_concat_map)
  show "length (fastq2 (snd (cell4 registry batch packages e))) =
          sum_list (map (\<lambda>p. length (filter is_reverse (files (pk p))))
                        (filter (str_in batch) packages))"
    by (simp add: cell4_readable(4) [OF r] length_concat_map)
qed

text \<open>
  Two matching packages with two forward files and one reverse file between them.
\<close>

theorem unequal_lengths_raise_witness:
  "cell5 (snd (cell4 ''s3://bkt'' ''proj/b1'' [''proj/b1_s1'', ''proj/b1_s2'']
                 one_read_missing)) = Inl ValueError \<and>
   length (samples (snd (cell4 ''s3://bkt'' ''proj/b1'' [''proj/b1_s1'', ''proj/b1_s2'']
                           one_read_missing))) = 2 \<and>
   length (fastq1 (snd (cell4 ''s3://bkt'' ''proj/b1'' [''proj/b1_s1'', ''proj/b1_s2'']
                          one_read_missing))) = 2 \<and>
   length (fastq2 (snd (cell4 ''s3://bkt'' ''proj/b1'' [''proj/b1_s1'', ''proj/b1_s2'']
                          one_read_missing))) = 1"
proof -
  let ?ps = "[''proj/b1_s1'', ''proj/b1_s2'']"
  let ?pk = "\<lambda>p. if p = ''proj/b1_s1''
               then sample_package ''HELA'' [''s1_1.fastq.gz'', ''s1_2.fastq.gz'']
               else sample_package ''K562'' [''s2_1.fastq.gz'']"
  let ?cl = "\<lambda>p. if p = ''proj/b1_s1'' then ''HELA'' else ''K562''"
  let ?e = "snd (cell4 ''s3://bkt'' ''proj/b1'' ?ps one_read_missing)"
  have r: "readable (store one_read_missing) ''s3://bkt'' ''proj/b1'' ?ps ?pk ?cl"
    by (simp add: readable_def one_read_missing_def notebook_def sample_package_def)
  note t = unequal_lengths_raise [of ?e one_read_missing "''s3://bkt''" "''proj/b1''" ?ps ?pk ?cl]
  from t r have n: "length (samples ?e) = 2" "length (fastq1 ?e) = 2" "length (fastq2 ?e) = 1"
    by (simp_all add: sample_package_def is_forward_def is_reverse_def)
  with t have "cell5 ?e = Inl ValueError" by simp
  with n show ?thesis by simp
qed

text \<open>
  C8: the two tests on a file name are independent. When cell 4 processes a package of the
  listing that has a file whose name contains both \<open>_1.fastq.gz\<close> and \<open>_2.fastq.gz\<close>,
  the forward list and the reverse list each get the location of that file once, at the
  file's place among the locations of the package and the package's place in the listing.
\<close>

theorem file_with_both_markers:
  assumes "readable (store e) registry batch (before @ p # after) pk cl"
    and "str_in batch p"
    and "files (pk p) = pre @ file # post"
    and "str_in ''_1.fastq.gz'' file" and "str_in ''_2.fastq.gz'' file"
  shows "fastq1 (snd (cell4 registry batch (before @ p # after) e)) =
           concat (map (\<lambda>q. map (location registry batch q) (filter is_forward (files (pk q))))
                       (filter (str_in batch) before)) @
           map (location registry batch p) (filter is_forward pre) @
           [location registry batch p file] @
           map (location registry batch p) (filter is_forward post) @
           concat (map (\<lambda>q. map (location registry batch q) (filter is_forward (files (pk q))))
                       (filter (str_in batch) after)) \<and>
         fastq2 (snd (cell4 registry batch (before @ p # after) e)) =
           concat (map (\<lambda>q. map (location registry batch q) (filter is_reverse (files (pk q))))
                       (filter (str_in batch) before)) @
           map (location registry batch p) (filter is_reverse pre) @
           [location registry batch p file] @
           map (location registry batch p) (filter is_reverse post) @
           concat (map (\<lambda>q. map (location registry batch q) (filter is_reverse (files (pk q))))
                       (filter (str_in batch) after))"
  using cell4_readable(3,4) [OF assms(1)] assms(2-5)
  by (simp add: is_forward_def is_reverse_def)

text \<open>
  A package with the file \<open>s1_1.fastq.gz_2.fastq.gz\<close>: one location in each list, and a
  manifest row with the same location twice.
\<close>

theorem file_with_both_markers_witness:
  "fastq1 (snd (cell4 ''s3://bkt'' ''proj/b1'' [''proj/b1_s1''] both_markers)) =
     [''s3://bkt/proj/b1_proj/b1_s1/s1_1.fastq.gz_2.fastq.gz''] \<and>
   fastq2 (snd (cell4 ''s3://bkt'' ''proj/b1'' [''proj/b1_s1''] both_markers)) =
     [''s3://bkt/proj/b1_proj/b1_s1/s1_1.fastq.gz_2.fastq.gz''] \<and>
   fst (build_manifest ''s3://bkt'' ''proj/b1'' [''proj/b1_s1''] both_markers) =
     Inr \<lparr>nrows = 1,
          columns = [(''sample'', [''HELA__proj/b1_s1'']),
                     (''fastq_1'', [''s3://bkt/proj/b1_proj/b1_s1/s1_1.fastq.gz_2.fastq.gz'']),
                     (''fastq_2'', [''s3://bkt/proj/b1_proj/b1_s1/s1_1.fastq.gz_2.fastq.gz'']),
                     (''strandedness'', [''auto''])]\<rparr>"
proof -
  let ?pkg = "sample_package ''HELA'' [''README.md'', ''s1_1.fastq.gz_2.fastq.gz'']"
  have r: "readable (store both_markers) ''s3://bkt'' ''proj/b1'' ([] @ ''proj/b1_s1'' # [])
             (\<lambda>p. ?pkg) (\<lambda>p. ''HELA'')"
    by (simp add: readable_def both_markers_def notebook_def sample_package_def)
  have m: "str_in ''proj/b1'' ''proj/b1_s1''" by simp
  have fs: "files ?pkg = [''README.md''] @ ''s1_1.fastq.gz_2.fastq.gz'' # []"
    by (simp add: sample_package_def)
  have f: "str_in ''_1.fastq.gz'' ''s1_1.fastq.gz_2.fastq.gz''" by simp
  have v: "str_in ''_2.fastq.gz'' ''s1_1.fastq.gz_2.fastq.gz''" by simp
  have l: "location ''s3://bkt'' ''proj/b1'' ''proj/b1_s1'' ''s1_1.fastq.gz_2.fastq.gz'' =
           ''s3://bkt/proj/b1_proj/b1_s1/s1_1.fastq.gz_2.fastq.gz''"
    by (simp add: location_def stripped_def)
  have b: "fst (build_manifest ''s3://bkt'' ''proj/b1'' [''proj/b1_s1''] both_markers) =
     Inr \<lparr>nrows = 1,
          columns = [(''sample'', [''HELA__proj/b1_s1'']),
                     (''fastq_1'', [''s3://bkt/proj/b1_proj/b1_s1/s1_1.fastq.gz_2.fastq.gz'']),
                     (''fastq_2'', [''s3://bkt/proj/b1_proj/b1_s1/s1_1.fastq.gz_2.fastq.gz'']),
                     (''strandedness'', [''auto''])]\<rparr>"
    by (simp add: run_defs both_markers_def)
  from file_with_both_markers [OF r m fs f v] l b show ?thesis
    by (simp add: is_forward_def is_reverse_def)
qed

section \<open>The CSV file\<close>

text \<open>
  C5: when cell 5 succeeds, the text cell 6 writes is the header record
  \<open>sample,fastq_1,fastq_2,strandedness\<close> followed by one record per sample. Read as CSV,
  the text has exactly these records, each of exactly four fields: the sample, the two
  locations and \<open>auto\<close>, whatever characters they hold, and no field for the row index.
  The text is written to the file when the directory of the path is there; otherwise cell
  6 raises OSError. The line terminator is the platform's: LF or CR LF.
\<close>

theorem csv_header_and_rows:
  assumes "length (fastq1 e) = length (samples e)" and "length (fastq2 e) = length (samples e)"
    and "linesep = [CHR 0x0A] \<or> linesep = [CHR 0x0D, CHR 0x0A]"
  shows "\<exists>df. cell5 e = Inr df \<and>
              csv_text df False linesep =
                ''sample,fastq_1,fastq_2,strandedness'' @ linesep @
                concat (map (\<lambda>i. csv_field linesep (samples e ! i) @ '','' @
                                  csv_field linesep (fastq1 e ! i) @ '','' @
                                  csv_field linesep (fastq2 e ! i) @ '',auto'' @ linesep)
                            [0..<length (samples e)]) \<and>
              csv_read linesep (csv_text df False linesep) =
                [''sample'', ''fastq_1'', ''fastq_2'', ''strandedness''] #
                map (\<lambda>i. [samples e ! i, fastq1 e ! i, fastq2 e ! i, ''auto''])
                    [0..<length (samples e)] \<and>
              cell6 batch df home linesep fs =
                (if parent (sample_sheet_path home batch) \<in> directories fs \<and>
                    sample_sheet_path home batch \<notin> directories fs
                 then Inr (fs\<lparr>file_text := (file_text fs)(sample_sheet_path home batch \<mapsto>
                                                 csv_text df False linesep)\<rparr>)
                 else Inl OSError)"
proof -
  let ?df = "\<lparr>nrows = length (samples e),
               columns = [(''sample'', samples e), (''fastq_1'', fastq1 e),
                          (''fastq_2'', fastq2 e),
                          (''strandedness'', replicate (length (samples e)) ''auto'')]\<rparr>"
  let ?rows = "map (\<lambda>i. [samples e ! i, fastq1 e ! i, fastq2 e ! i, ''auto''])
                   [0..<length (samples e)]"
  have c: "cell5 e = Inr ?df"
    by (rule cell5_equal [OF assms(1,2)])
  have rows: "rows ?df = ?rows"
    unfolding rows_def by (rule map_cong) simp_all
  have h: "csv_record linesep [''sample'', ''fastq_1'', ''fastq_2'', ''strandedness''] =
           ''sample,fastq_1,fastq_2,strandedness'' @ linesep"
    by (simp add: csv_record_def csv_field_plain [OF assms(3)])
  have r: "csv_record linesep [s, a, b, ''auto''] =
           csv_field linesep s @ '','' @ csv_field linesep a @ '','' @
           csv_field linesep b @ '',auto'' @ linesep" for s a b
    by (simp add: csv_record_def csv_field_plain [OF assms(3)])
  have "csv_text ?df False linesep =
          csv_record linesep [''sample'', ''fastq_1'', ''fastq_2'', ''strandedness''] @
          concat (map (csv_record linesep) ?rows)"
    using csv_text_rows [of ?df linesep] by (simp add: rows)
  then have t: "csv_text ?df False linesep =
                  ''sample,fastq_1,fastq_2,strandedness'' @ linesep @
                  concat (map (\<lambda>i. csv_field linesep (samples e ! i) @ '','' @
                                    csv_field linesep (fastq1 e ! i) @ '','' @
                                    csv_field linesep (fastq2 e ! i) @ '',auto'' @ linesep)
                              [0..<length (samples e)])"
    by (simp only: h r map_map comp_def append_assoc)
  from assms(3) have ls: "linesep \<noteq> []" "CHR 0x22 \<notin> set linesep" "CHR '','' \<notin> set linesep"
    by auto
  have "csv_read linesep (csv_text ?df False linesep) = map fst (columns ?df) # rows ?df"
    by (rule csv_read_csv_text [OF ls]) simp
  then have rd: "csv_read linesep (csv_text ?df False linesep) =
                   [''sample'', ''fastq_1'', ''fastq_2'', ''strandedness''] # ?rows"
    by (simp add: rows)
  from c t rd cell6_written [of batch ?df home linesep fs] show ?thesis by blast
qed

text \<open>
  A cell line with a comma in it: the sample is written in quotes and read back as one
  field. The batch \<open>proj/b1\<close> keeps its slash in the file name, so the file goes to the
  directory \<open>proj\<close>, and cell 6 raises where that directory is missing.
\<close>

theorem csv_header_and_rows_witness:
  "\<exists>df. cell5 (snd (cell4 ''s3://bkt'' ''proj/b1'' [''proj/b1_s1''] comma_in_cell_line)) = Inr df \<and>
        csv_text df False [CHR 0x0A] =
          ''sample,fastq_1,fastq_2,strandedness'' @ [CHR 0x0A] @
          [CHR 0x22] @ ''HeLa, S3__proj/b1_s1'' @ [CHR 0x22] @
          '',s3://bkt/proj/b1_proj/b1_s1/s1_1.fastq.gz,s3://bkt/proj/b1_proj/b1_s1/s1_2.fastq.gz,auto'' @
          [CHR 0x0A] \<and>
        csv_read [CHR 0x0A] (csv_text df False [CHR 0x0A]) =
          [[''sample'', ''fastq_1'', ''fastq_2'', ''strandedness''],
           [''HeLa, S3__proj/b1_s1'', ''s3://bkt/proj/b1_proj/b1_s1/s1_1.fastq.gz'',
            ''s3://bkt/proj/b1_proj/b1_s1/s1_2.fastq.gz'', ''auto'']] \<and>
        cell6 ''proj/b1'' df ''/home/u'' [CHR 0x0A] home_with_nfcore = Inl OSError \<and>
        cell6 ''proj/b1'' df ''/home/u'' [CHR 0x0A] home_with_batch_dir =
          Inr (home_with_batch_dir
                 \<lparr>file_text := [''/home/u/data/nfcore/proj/b1__samplesheet.csv'' \<mapsto>
                                 csv_text df False [CHR 0x0A]]\<rparr>)"
proof -
  let ?e = "snd (cell4 ''s3://bkt'' ''proj/b1'' [''proj/b1_s1''] comma_in_cell_line)"
  have s: "samples ?e = [''HeLa, S3__proj/b1_s1'']"
    by (simp add: run_defs comma_in_cell_line_def)
  have a: "fastq1 ?e = [''s3://bkt/proj/b1_proj/b1_s1/s1_1.fastq.gz'']"
    by (simp add: run_defs comma_in_cell_line_def)
  have b: "fastq2 ?e = [''s3://bkt/proj/b1_proj/b1_s1/s1_2.fastq.gz'']"
    by (simp add: run_defs comma_in_cell_line_def)
  have l1: "length (fastq1 ?e) = length (samples ?e)" by (simp add: s a)
  have l2: "length (fastq2 ?e) = length (samples ?e)" by (simp add: s b)
  have nl: "[CHR 0x0A] = [CHR 0x0A] \<or> [CHR 0x0A] = [CHR 0x0D, CHR 0x0A]" by simp
  have p: "sample_sheet_path ''/home/u'' ''proj/b1'' =
           ''/home/u/data/nfcore/proj/b1__samplesheet.csv''"
    by (simp add: sample_sheet_path_def expanduser_def)
  have d: "parent ''/home/u/data/nfcore/proj/b1__samplesheet.csv'' = ''/home/u/data/nfcore/proj''"
    by (simp add: parent_def)
  from csv_header_and_rows [OF l1 l2 nl, of "''proj/b1''" "''/home/u''" home_with_nfcore]
  obtain df where df: "cell5 ?e = Inr df"
    and t: "csv_text df False [CHR 0x0A] =
              ''sample,fastq_1,fastq_2,strandedness'' @ [CHR 0x0A] @
              [CHR 0x22] @ ''HeLa, S3__proj/b1_s1'' @ [CHR 0x22] @
              '',s3://bkt/proj/b1_proj/b1_s1/s1_1.fastq.gz,s3://bkt/proj/b1_proj/b1_s1/s1_2.fastq.gz,auto'' @
              [CHR 0x0A]"
    and r: "csv_read [CHR 0x0A] (csv_text df False [CHR 0x0A]) =
              [[''sample'', ''fastq_1'', ''fastq_2'', ''strandedness''],
               [''HeLa, S3__proj/b1_s1'', ''s3://bkt/proj/b1_proj/b1_s1/s1_1.fastq.gz'',
                ''s3://bkt/proj/b1_proj/b1_s1/s1_2.fastq.gz'', ''auto'']]"
    and w1: "cell6 ''proj/b1'' df ''/home/u'' [CHR 0x0A] home_with_nfcore = Inl OSError"
    by (auto simp: s a b p d csv_field_def home_with_nfcore_def)
  from csv_header_and_rows [OF l1 l2 nl, of "''proj/b1''" "''/home/u''" home_with_batch_dir] df
  have "cell6 ''proj/b1'' df ''/home/u'' [CHR 0x0A] home_with_batch_dir =
          Inr (home_with_batch_dir
                 \<lparr>file_text := [''/home/u/data/nfcore/proj/b1__samplesheet.csv'' \<mapsto>
                                 csv_text df False [CHR 0x0A]]\<rparr>)"
    by (auto simp: p d home_with_batch_dir_def)
  with df t r w1 show ?thesis by blast
qed

section \<open>Effects and inputs of the build\<close>

text \<open>
  C7: building the manifest leaves the registry as it was, whether it ends with a
  manifest or with an error, and the only registry calls it makes are \<open>browse\<close> calls,
  one for each matching identifier up to the one at which it stopped.
\<close>

theorem build_reads_only:
  "store (snd (build_manifest registry batch packages e)) = store e \<and>
   (\<exists>ps. prefix ps (filter (str_in batch) packages) \<and>
         calls (snd (build_manifest registry batch packages e)) =
           calls e @ map (\<lambda>p. Browse p registry) ps)"
proof
  show "store (snd (build_manifest registry batch packages e)) = store e"
    by (simp add: build_manifest_env cell4_def packages_loop_store)
next
  from packages_loop_calls [of batch packages registry "e\<lparr>samples := [], fastq1 := [], fastq2 := []\<rparr>"]
  show "\<exists>ps. prefix ps (filter (str_in batch) packages) \<and>
             calls (snd (build_manifest registry batch packages e)) =
               calls e @ map (\<lambda>p. Browse p registry) ps"
    by (simp add: build_manifest_env cell4_def)
qed

text \<open>
  C10: the result of the build, a manifest or an error, is a function of the registry and
  batch strings, the listing, and the \<open>CellLine\<close> entry and file names of the listed
  packages that match. Two runs that agree on these give the same result, whatever else
  differs: other metadata, other packages, earlier output or earlier values of the lists.
\<close>

theorem manifest_depends_only_on_inputs:
  assumes "same_inputs (store e1) (store e2) registry batch packages"
  shows "fst (build_manifest registry batch packages e1) =
         fst (build_manifest registry batch packages e2)"
proof -
  let ?i = "\<lambda>e. e\<lparr>samples := [], fastq1 := [], fastq2 := []\<rparr>"
  have "same_inputs (store (?i e1)) (store (?i e2)) registry batch packages"
    using assms by simp
  from packages_loop_same_inputs [OF this]
  have eq: "fst (cell4 registry batch packages e1) = fst (cell4 registry batch packages e2)"
    "samples (snd (cell4 registry batch packages e1)) =
     samples (snd (cell4 registry batch packages e2))"
    "fastq1 (snd (cell4 registry batch packages e1)) =
     fastq1 (snd (cell4 registry batch packages e2))"
    "fastq2 (snd (cell4 registry batch packages e1)) =
     fastq2 (snd (cell4 registry batch packages e2))"
    by (simp_all add: cell4_def)
  from eq(2-4) have c: "cell5 (snd (cell4 registry batch packages e1)) =
                        cell5 (snd (cell4 registry batch packages e2))"
    by (rule cell5_accumulators)
  show ?thesis
    unfolding build_manifest_result eq(1) c by (rule refl)
qed

text \<open>
  A run that starts with stale lists, earlier output, an extra metadata entry and another
  batch's package changed gives the same manifest.
\<close>

theorem manifest_depends_only_on_inputs_witness:
  "same_inputs (store annotated) (store spec_fixture) ''s3://bkt'' ''proj/b1''
     [''proj/b2_s7'', ''proj/b1_s1''] \<and>
   fst (build_manifest ''s3://bkt'' ''proj/b1'' [''proj/b2_s7'', ''proj/b1_s1''] annotated) =
   fst (build_manifest ''s3://bkt'' ''proj/b1'' [''proj/b2_s7'', ''proj/b1_s1''] spec_fixture) \<and>
   fst (build_manifest ''s3://bkt'' ''proj/b1'' [''proj/b2_s7'', ''proj/b1_s1''] annotated) =
     Inr \<lparr>nrows = 1,
          columns = [(''sample'', [''HELA__proj/b1_s1'']),
                     (''fastq_1'', [''s3://bkt/proj/b1_proj/b1_s1/s1_1.fastq.gz'']),
                     (''fastq_2'', [''s3://bkt/proj/b1_proj/b1_s1/s1_2.fastq.gz'']),
                     (''strandedness'', [''auto''])]\<rparr>"
proof -
  have s: "same_inputs (store annotated) (store spec_fixture) ''s3://bkt'' ''proj/b1''
             [''proj/b2_s7'', ''proj/b1_s1'']"
    by (simp add: same_inputs_def annotated_def spec_fixture_def notebook_def sample_package_def)
  have v: "fst (build_manifest ''s3://bkt'' ''proj/b1'' [''proj/b2_s7'', ''proj/b1_s1''] annotated) =
     Inr \<lparr>nrows = 1,
          columns = [(''sample'', [''HELA__proj/b1_s1'']),
                     (''fastq_1'', [''s3://bkt/proj/b1_proj/b1_s1/s1_1.fastq.gz'']),
                     (''fastq_2'', [''s3://bkt/proj/b1_proj/b1_s1/s1_2.fastq.gz'']),
                     (''strandedness'', [''auto''])]\<rparr>"
    by (simp add: run_defs annotated_def)
  from s v manifest_depends_only_on_inputs [OF s] show ?thesis by simp
qed

end
